theory Spec2Isabelle
  imports Main "HOL-Library.Word"
begin

section \<open>Python text\<close>

text \<open>
  A Python \<open>str\<close> is a sequence of Unicode code points, so it is modelled as a list of
  natural numbers. ASCII literals of the source are written through \<open>ascii\<close>; the Chinese
  literals are written as their code points.
\<close>

type_synonym uchar = nat
type_synonym ustr = "uchar list"

definition ascii :: "string \<Rightarrow> ustr" where
  "ascii s = map of_char s"

text \<open>
  The parts of the interpreter's Unicode database that the program reaches through
  \<open>str.strip\<close>, \<open>str.lower\<close>, the regular expression class \<open>\d\<close> and \<open>int()\<close>.
  They are not code of the repository, so they are a parameter of the model.
  \<open>py_lower\<close> works on whole strings because Python's lowercasing is context sensitive and
  may change the length. \<open>py_max_str_digits\<close> is the interpreter's limit on the number of
  digits \<open>int()\<close> converts (0 switches it off).
\<close>

record unicode =
  py_isspace :: "uchar \<Rightarrow> bool"
  py_decimal :: "uchar \<Rightarrow> nat option"
  py_lower :: "ustr \<Rightarrow> ustr"
  py_max_str_digits :: nat

datatype exn =
    ValueError | OverflowError | OSError | UnicodeDecodeError | YAMLError
  | ValidationError | ZoneInfoNotFoundError | HTTPError | RuntimeError

definition strip :: "unicode \<Rightarrow> ustr \<Rightarrow> ustr" where
  "strip U s = rev (dropWhile (py_isspace U) (rev (dropWhile (py_isspace U) s)))"

definition isdecimal :: "unicode \<Rightarrow> uchar \<Rightarrow> bool" where
  "isdecimal U c = (py_decimal U c \<noteq> None)"

definition digit_value :: "unicode \<Rightarrow> uchar \<Rightarrow> nat" where
  "digit_value U c = (case py_decimal U c of None \<Rightarrow> 0 | Some d \<Rightarrow> d)"

definition decimal_value :: "unicode \<Rightarrow> ustr \<Rightarrow> nat" where
  "decimal_value U ds = foldl (\<lambda>a c. 10 * a + digit_value U c) 0 ds"

text \<open>
  The digits of an \<open>int()\<close> literal after the sign: one digit, then digits each optionally
  preceded by a single underscore. The result is the digits without the underscores.
\<close>

fun int_digits :: "unicode \<Rightarrow> ustr \<Rightarrow> ustr \<Rightarrow> ustr option" where
  "int_digits U acc [] = (if acc = [] then None else Some acc)"
| "int_digits U acc (c # cs) =
     (if isdecimal U c then int_digits U (acc @ [c]) cs
      else if c = 95 \<and> acc \<noteq> [] then
        (case cs of
           [] \<Rightarrow> None
         | d # ds \<Rightarrow> if isdecimal U d then int_digits U (acc @ [d]) ds else None)
      else None)"

text \<open>
  \<open>int(text)\<close> in base 10: surrounding whitespace is dropped, one sign is allowed, and a
  literal with more digits than the interpreter's limit raises \<open>ValueError\<close> (the limit
  is only looked at beyond 640 digits).
\<close>

definition py_int :: "unicode \<Rightarrow> ustr \<Rightarrow> exn + int" where
  "py_int U text =
     (let t = strip U text;
          neg = (t \<noteq> [] \<and> hd t = 45);
          body = (if t \<noteq> [] \<and> (hd t = 45 \<or> hd t = 43) then tl t else t)
      in case int_digits U [] body of
           None \<Rightarrow> Inl ValueError
         | Some ds \<Rightarrow>
             if 640 < length ds \<and> 0 < py_max_str_digits U \<and> py_max_str_digits U < length ds
             then Inl ValueError
             else Inr (if neg then - int (decimal_value U ds) else int (decimal_value U ds)))"

section \<open>Interval parser (libs/neural_flow/config.py)\<close>

text \<open>
  \<open>_INTERVAL_PATTERN = re.compile(r"^(\d+)([mh])$")\<close>, used with \<open>match\<close>: the longest
  run of decimal digits (no shorter run can be followed by \<open>m\<close> or \<open>h\<close>), one of the two
  unit letters, and then the end of the text, which \<open>$\<close> also finds just before one final
  newline. The result is the two groups.
\<close>

definition interval_pattern_match :: "unicode \<Rightarrow> ustr \<Rightarrow> (ustr \<times> uchar) option" where
  "interval_pattern_match U t =
     (let ds = takeWhile (isdecimal U) t; rest = dropWhile (isdecimal U) t
      in if ds = [] then None
         else case rest of
                [u] \<Rightarrow> if u = 109 \<or> u = 104 then Some (ds, u) else None
              | [u, nl] \<Rightarrow> if (u = 109 \<or> u = 104) \<and> nl = 10 then Some (ds, u) else None
              | _ \<Rightarrow> None)"

definition interval_to_seconds :: "unicode \<Rightarrow> ustr \<Rightarrow> exn + int" where
  "interval_to_seconds U interval_text =
     (case interval_pattern_match U (py_lower U (strip U interval_text)) of
        None \<Rightarrow> Inl ValueError
      | Some (digits, unit) \<Rightarrow>
          (case py_int U digits of
             Inl e \<Rightarrow> Inl e
           | Inr v \<Rightarrow> if unit = 109 then Inr (v * 60) else Inr (v * 3600)))"

text \<open>
  The database restricted to ASCII: exact on every text made of ASCII characters, and the
  table used to evaluate the model on concrete inputs.
\<close>

definition ascii_lower :: "uchar \<Rightarrow> uchar" where
  "ascii_lower c = (if 65 \<le> c \<and> c \<le> 90 then c + 32 else c)"

definition ascii_unicode :: unicode where
  "ascii_unicode =
     \<lparr> py_isspace = (\<lambda>c. (9 \<le> c \<and> c \<le> 13) \<or> (28 \<le> c \<and> c \<le> 32)),
       py_decimal = (\<lambda>c. if 48 \<le> c \<and> c \<le> 57 then Some (c - 48) else None),
       py_lower = map ascii_lower,
       py_max_str_digits = 4300 \<rparr>"

text \<open>
  What the model assumes of any Unicode database: it agrees with ASCII on ASCII text, a
  decimal digit has a value below ten and is not whitespace, and lowercasing produces a
  final newline only from a final newline.
\<close>

definition unicode_ok :: "unicode \<Rightarrow> bool" where
  "unicode_ok U \<longleftrightarrow>
     (\<forall>c. c < 128 \<longrightarrow> py_isspace U c = py_isspace ascii_unicode c) \<and>
     (\<forall>c. c < 128 \<longrightarrow> py_decimal U c = py_decimal ascii_unicode c) \<and>
     (\<forall>s. (\<forall>c \<in> set s. c < 128) \<longrightarrow> py_lower U s = map ascii_lower s) \<and>
     (\<forall>c d. py_decimal U c = Some d \<longrightarrow> d < 10 \<and> \<not> py_isspace U c) \<and>
     (\<forall>s. s \<noteq> [] \<and> last s \<noteq> 10 \<longrightarrow> py_lower U s \<noteq> [] \<and> last (py_lower U s) \<noteq> 10) \<and>
     py_lower U [] = []"

section \<open>Rule model and wire types (libs/neural_flow/models.py)\<close>

type_synonym byte = "8 word"
type_synonym datetime = int

record source_config =
  sc_id :: ustr
  sc_type :: ustr
  sc_url :: ustr
  fetch_interval :: ustr
  weight :: int
  max_items :: int

record platform_policy =
  enabled :: bool
  style_prompt :: ustr
  schedule :: "ustr option"
  max_posts_per_day :: "int option"
  min_word_count :: "int option"

record visual_config =
  default_style :: ustr
  default_ratio :: ustr

record global_config_t =
  timezone :: ustr
  memory_retention_days :: int

text \<open>\<open>platforms\<close> is a dictionary; its insertion order is observable, so it is kept as a list
  of items.\<close>

record rules_config =
  global_config :: global_config_t
  sources :: "source_config list"
  platforms :: "(ustr \<times> platform_policy) list"
  visual :: visual_config

record normalized_item =
  item_source_id :: ustr
  url_hash :: ustr
  title :: ustr
  url :: ustr
  summary :: ustr
  raw_text :: ustr
  published_at :: "ustr option"
  images :: "ustr list"
  item_keywords :: "ustr list"

record pulse_run_result =
  source_id :: ustr
  scanned :: int
  processed :: int
  duplicated :: int
  failed :: int
  started_at :: datetime
  ended_at :: datetime

text \<open>The \<open>content_pack\<close> dictionary that \<open>run_source\<close> sends to the archive service, and the
  payload of the remember call, key by key.\<close>

record content_pack =
  record_type :: ustr
  cp_source_id :: ustr
  source_info :: ustr
  cp_url_hash :: ustr
  cp_title :: ustr
  source_url :: ustr
  topic_summary :: ustr
  ai_summary :: ustr
  image_url :: ustr
  image_urls :: "ustr list"
  channels :: "ustr list"
  status :: ustr
  cp_trace_id :: ustr

record remember_request =
  rm_source_id :: ustr
  rm_url_hash :: ustr
  rm_title :: ustr
  rm_url :: ustr
  rm_summary :: ustr
  rm_keywords :: "ustr list"
  rm_raw_text :: ustr
  archive_url :: ustr
  rm_image_url :: ustr

text \<open>One constructor per endpoint that \<open>run_source\<close> posts to, carrying the payload; and
  the response models the services of this repository declare for them.\<close>

datatype request =
    Scan source_config
  | CheckDuplicate ustr
  | Archive content_pack
  | Remember remember_request

datatype response =
    ScanResponse "normalized_item list"
  | DuplicateCheckResponse bool
  | ArchiveResponse ustr ustr
  | StatusOk

text \<open>A value of the dictionary that \<open>model_dump(mode="json")\<close> returns; a datetime stands
  for its ISO text.\<close>

datatype jvalue = JStr ustr | JInt int | JDatetime datetime

datatype log_line =
    HeartbeatStart ustr
  | ItemFailed ustr exn
  | SourceFailed ustr exn
  | HeartbeatDone ustr int int int int int
  | RulesChanged
  | WatchFailed exn
  | LoadedSources nat
  | SchedulerStarted

section \<open>Scheduler jobs (apscheduler, as services/pulse/main.py uses it)\<close>

datatype trigger =
    IntervalTrigger int "ustr option"
  | CronTrigger int int ustr

datatype job_func = WatchRules | RunSource source_config | RunAllSources ustr | CleanupMemory

record job =
  job_id :: ustr
  func :: job_func
  job_trigger :: trigger
  max_instances :: "nat option"
  coalesce :: "bool option"

section \<open>Program state and the world outside\<close>

text \<open>
  \<open>trace_var\<close> and \<open>request_var\<close> are the two context variables of observability.py;
  \<open>None\<close> is a variable that was never set, which reads as its default, the empty text.
\<close>

record log_context =
  trace_var :: "ustr option"
  request_var :: "ustr option"

text \<open>
  The state of the pulse service: the context variables, the fields of \<open>PulseEngine\<close>
  (\<open>rules\<close>, \<open>fingerprint\<close>, \<open>last_runs\<close>, and the scheduler's job store as \<open>jobs\<close>), the state
  \<open>world\<close> of everything outside the process, and two histories: every HTTP attempt made
  (\<open>sent\<close>, with its headers) and every log call of the engine (\<open>logged\<close>).
\<close>

record 'w pulse = log_context +
  world :: 'w
  sent :: "(request \<times> (ustr \<times> ustr) list) list"
  logged :: "log_line list"
  rules :: "rules_config option"
  fingerprint :: ustr
  last_runs :: "ustr \<Rightarrow> (ustr \<times> jvalue) list option"
  jobs :: "job list"

text \<open>
  The libraries and the outside world, as parameters: one HTTP attempt (post, status check
  and JSON decoding), the clock, reading the rules file, SHA-256, decoding and validating
  the rules (UTF-8, YAML, pydantic), \<open>ZoneInfo\<close>, the checks the two trigger constructors
  make, and the Unicode database.
\<close>

record 'w host =
  http_post :: "request \<Rightarrow> (ustr \<times> ustr) list \<Rightarrow> 'w \<Rightarrow> (exn + response) \<times> 'w"
  utcnow :: "'w \<Rightarrow> datetime \<times> 'w"
  read_bytes :: "'w \<Rightarrow> (exn + byte list) \<times> 'w"
  sha256 :: "byte list \<Rightarrow> 256 word"
  validate_rules :: "byte list \<Rightarrow> exn + rules_config"
  zone_info :: "ustr \<Rightarrow> exn + ustr"
  interval_trigger_error :: "int \<Rightarrow> exn option"
  cron_trigger_error :: "int \<Rightarrow> int \<Rightarrow> exn option"
  tables :: unicode

section \<open>Configuration loader and fingerprint (libs/neural_flow/config.py)\<close>

definition hex_digit :: "nat \<Rightarrow> uchar" where
  "hex_digit n = (if n < 10 then 48 + n else 87 + n)"

text \<open>\<open>hexdigest()\<close>: the 64 lowercase hexadecimal digits of the digest, most significant
  first.\<close>

definition hexdigest :: "256 word \<Rightarrow> ustr" where
  "hexdigest h = map (\<lambda>i. hex_digit (unat (take_bit 4 (drop_bit (4 * (63 - i)) h)))) [0..<64]"

definition rules_fingerprint :: "'w host \<Rightarrow> 'w pulse \<Rightarrow> (exn + ustr) \<times> 'w pulse" where
  "rules_fingerprint H s =
     (let (r, w) = read_bytes H (world s); s1 = s\<lparr>world := w\<rparr>
      in case r of
           Inl e \<Rightarrow> (Inl e, s1)
         | Inr raw \<Rightarrow> (Inr (hexdigest (sha256 H raw)), s1))"

definition load_rules :: "'w host \<Rightarrow> 'w pulse \<Rightarrow> (exn + rules_config) \<times> 'w pulse" where
  "load_rules H s =
     (let (r, w) = read_bytes H (world s); s1 = s\<lparr>world := w\<rparr>
      in case r of
           Inl e \<Rightarrow> (Inl e, s1)
         | Inr raw \<Rightarrow> (validate_rules H raw, s1))"

section \<open>Trace context (libs/neural_flow/observability.py)\<close>

definition id_char :: "uchar \<Rightarrow> bool" where
  "id_char c \<longleftrightarrow>
     (97 \<le> c \<and> c \<le> 122) \<or> (65 \<le> c \<and> c \<le> 90) \<or> (48 \<le> c \<and> c \<le> 57) \<or> c = 95 \<or> c = 45"

text \<open>\<open>_normalize_id\<close>, for a value that is a text: \<open>re.sub\<close> removes every character outside
  the class, and \<open>cleaned[:64] or fallback\<close> cuts the rest.\<close>

definition normalize_id :: "ustr \<Rightarrow> ustr \<Rightarrow> ustr" where
  "normalize_id v fallback =
     (let cleaned = filter id_char v
      in if take 64 cleaned = [] then fallback else take 64 cleaned)"

definition get_trace_id :: "unicode \<Rightarrow> 'a log_context_scheme \<Rightarrow> ustr" where
  "get_trace_id U s = strip U (case trace_var s of None \<Rightarrow> [] | Some v \<Rightarrow> v)"

definition get_request_id :: "unicode \<Rightarrow> 'a log_context_scheme \<Rightarrow> ustr" where
  "get_request_id U s = strip U (case request_var s of None \<Rightarrow> [] | Some v \<Rightarrow> v)"

text \<open>
  The part of \<open>bind_log_context\<close> before \<open>yield\<close>. A token is the value the variable had
  before \<open>set\<close> (\<open>None\<close> when it was unset); no token is taken for an argument that is
  \<open>None\<close>.
\<close>

definition enter_log_context ::
  "ustr option \<Rightarrow> ustr option \<Rightarrow> 'a log_context_scheme \<Rightarrow>
   (ustr option option \<times> ustr option option) \<times> 'a log_context_scheme" where
  "enter_log_context trace_id request_id s =
     (let (token_trace, s1) =
            (case trace_id of
               None \<Rightarrow> (None, s)
             | Some t \<Rightarrow> (Some (trace_var s), s\<lparr>trace_var := Some (normalize_id t [])\<rparr>));
          (token_request, s2) =
            (case request_id of
               None \<Rightarrow> (None, s1)
             | Some r \<Rightarrow> (Some (request_var s1), s1\<lparr>request_var := Some (normalize_id r [])\<rparr>))
      in ((token_trace, token_request), s2))"

text \<open>The \<open>finally\<close> block: each token that was taken resets its variable.\<close>

definition exit_log_context ::
  "ustr option option \<times> ustr option option \<Rightarrow> 'a log_context_scheme \<Rightarrow> 'a log_context_scheme" where
  "exit_log_context tokens s =
     (let s1 = (case fst tokens of None \<Rightarrow> s | Some old \<Rightarrow> s\<lparr>trace_var := old\<rparr>)
      in case snd tokens of None \<Rightarrow> s1 | Some old \<Rightarrow> s1\<lparr>request_var := old\<rparr>)"

text \<open>
  \<open>with bind_log_context(...): body\<close>. The body either returns (\<open>Inr\<close>) or raises
  (\<open>Inl\<close>); the \<open>finally\<close> block runs in both cases and the outcome of the body is passed
  on.
\<close>

definition bind_log_context ::
  "ustr option \<Rightarrow> ustr option \<Rightarrow>
   ('a log_context_scheme \<Rightarrow> (exn + 'r) \<times> 'a log_context_scheme) \<Rightarrow>
   'a log_context_scheme \<Rightarrow> (exn + 'r) \<times> 'a log_context_scheme" where
  "bind_log_context trace_id request_id body s =
     (let (tokens, s1) = enter_log_context trace_id request_id s;
          (outcome, s2) = body s1
      in (outcome, exit_log_context tokens s2))"

definition outbound_trace_headers :: "unicode \<Rightarrow> 'a log_context_scheme \<Rightarrow> (ustr \<times> ustr) list" where
  "outbound_trace_headers U s =
     (let trace_id = get_trace_id U s; request_id = get_request_id U s
      in (if trace_id \<noteq> [] then [(ascii ''x-trace-id'', trace_id)] else []) @
         (if request_id \<noteq> [] then [(ascii ''x-request-id'', request_id)] else []))"

text \<open>A normalized identifier: at most 64 characters, all of them from \<open>[a-zA-Z0-9_-]\<close>.\<close>

definition id_text :: "ustr \<Rightarrow> bool" where
  "id_text v \<longleftrightarrow> length v \<le> 64 \<and> list_all id_char v"

text \<open>
  The contexts that can arise when the two variables are only ever changed by
  \<open>bind_log_context\<close>: the fresh context, the context on entry to a binding made in such a
  context, and the context a binding leaves when its body ended in such a context.
\<close>

inductive bound_context :: "log_context \<Rightarrow> bool" where
  fresh: "bound_context \<lparr>trace_var = None, request_var = None\<rparr>"
| entered: "bound_context c \<Longrightarrow> bound_context (snd (enter_log_context trace_id request_id c))"
| left: "bound_context c \<Longrightarrow> bound_context c' \<Longrightarrow>
         bound_context (exit_log_context (fst (enter_log_context trace_id request_id c)) c')"

section \<open>HTTP helper (libs/neural_flow/http.py)\<close>

text \<open>
  \<open>post_json\<close> is retried by tenacity: \<open>stop_after_attempt(3)\<close> with \<open>reraise=True\<close>. Each
  attempt builds its headers from the active context. \<open>post_json_attempt H n\<close> makes one
  attempt and up to \<open>n\<close> more after a failure; the last failure is raised. The waits
  between attempts are part of what the world does between two calls.
\<close>

primrec post_json_attempt ::
  "'w host \<Rightarrow> nat \<Rightarrow> request \<Rightarrow> 'w pulse \<Rightarrow> (exn + response) \<times> 'w pulse" where
  "post_json_attempt H 0 req s =
     (let req_headers = outbound_trace_headers (tables H) s;
          (r, w) = http_post H req req_headers (world s)
      in (r, s\<lparr>world := w, sent := sent s @ [(req, req_headers)]\<rparr>))"
| "post_json_attempt H (Suc n) req s =
     (let req_headers = outbound_trace_headers (tables H) s;
          (r, w) = http_post H req req_headers (world s);
          s1 = s\<lparr>world := w, sent := sent s @ [(req, req_headers)]\<rparr>
      in case r of
           Inr v \<Rightarrow> (Inr v, s1)
         | Inl e \<Rightarrow> post_json_attempt H n req s1)"

definition post_json :: "'w host \<Rightarrow> request \<Rightarrow> 'w pulse \<Rightarrow> (exn + response) \<times> 'w pulse" where
  "post_json H req s = post_json_attempt H 2 req s"

section \<open>Pipeline runner (services/pulse/main.py)\<close>

definition HIGH_VALUE_HINTS :: "ustr list" where
  "HIGH_VALUE_HINTS =
     [[21457, 24067], [24320, 28304], [19978, 32447], ascii ''agent'', ascii ''benchmark'',
      ascii ''paper'', [27169, 22411], [34701, 36164], ascii ''sota'']"

fun startswith :: "ustr \<Rightarrow> ustr \<Rightarrow> bool" where
  "startswith s [] = True"
| "startswith [] (p # ps) = False"
| "startswith (c # cs) (p # ps) = (c = p \<and> startswith cs ps)"

text \<open>\<open>needle in hay\<close> on texts.\<close>

fun contains :: "ustr \<Rightarrow> ustr \<Rightarrow> bool" where
  "contains [] needle = (needle = [])"
| "contains (c # cs) needle = (startswith (c # cs) needle \<or> contains cs needle)"

text \<open>\<open>text.replace(old, "")\<close> for a non-empty \<open>old\<close>: occurrences are removed from left to
  right without overlap. The counter is the number of characters of the occurrence being
  removed that are still to skip.\<close>

fun remove_all :: "ustr \<Rightarrow> nat \<Rightarrow> ustr \<Rightarrow> ustr" where
  "remove_all old k [] = []"
| "remove_all old (Suc k) (c # cs) = remove_all old k cs"
| "remove_all old 0 (c # cs) =
     (if old \<noteq> [] \<and> startswith (c # cs) old then remove_all old (length old - 1) cs
      else c # remove_all old 0 cs)"

definition is_high_value_signal :: "unicode \<Rightarrow> normalized_item \<Rightarrow> bool" where
  "is_high_value_signal U item =
     (let merged = py_lower U (title item @ [10] @ raw_text item @ [10] @ summary item);
          score = (if 220 \<le> length (raw_text item) then 1 else 0)
                + (if 0 < length (images item) then 1 else 0)
                + (if \<exists>hint \<in> set HIGH_VALUE_HINTS. contains merged hint then 1 else (0::nat))
      in 2 \<le> score)"

definition source_info_from_source_id :: "unicode \<Rightarrow> ustr \<Rightarrow> ustr" where
  "source_info_from_source_id U sid =
     (let raw = py_lower U (strip U sid)
      in if raw = [] then ascii ''unknown-unknown''
         else if startswith raw (ascii ''twitter_'') then
           ascii ''twitter-'' @ remove_all (ascii ''_live'') 0 (drop 8 raw)
         else if startswith raw (ascii ''wechat_'') then
           ascii ''wechat-'' @ remove_all (ascii ''_live'') 0 (drop 7 raw)
         else if startswith raw (ascii ''xhs_'') \<or> contains raw (ascii ''xiaohongshu'') then
           ascii ''xiaohongshu-'' @ remove_all (ascii ''_live'') 0 raw
         else raw)"

text \<open>The \<open>counters\<close> dictionary of \<open>run_source\<close>; its \<open>source_id\<close> and \<open>started_at\<close> entries
  are never updated and are carried by \<open>run_source\<close> itself.\<close>

record counters =
  c_scanned :: int
  c_processed :: int
  c_duplicated :: int
  c_filtered :: int
  c_failed :: int

text \<open>The names of the enabled platforms, in dictionary order: the keys of
  \<open>platform_strategy\<close>, which is empty when no rules are loaded.\<close>

definition platform_strategy_keys :: "rules_config option \<Rightarrow> ustr list" where
  "platform_strategy_keys rs =
     (case rs of
        None \<Rightarrow> []
      | Some r \<Rightarrow> map fst (filter (\<lambda>(name, policy). enabled policy) (platforms r)))"

definition source_summary_of :: "normalized_item \<Rightarrow> ustr" where
  "source_summary_of item =
     take 240 (if summary item \<noteq> [] then summary item else raw_text item)"

definition first_image :: "normalized_item \<Rightarrow> ustr" where
  "first_image item = (case images item of [] \<Rightarrow> [] | i # _ \<Rightarrow> i)"

definition build_content_pack ::
  "unicode \<Rightarrow> rules_config option \<Rightarrow> source_config \<Rightarrow> normalized_item \<Rightarrow> ustr \<Rightarrow> content_pack" where
  "build_content_pack U rs source item trace_id =
     \<lparr> record_type = ascii ''topic'',
       cp_source_id = sc_id source,
       source_info = source_info_from_source_id U (sc_id source),
       cp_url_hash = url_hash item,
       cp_title = title item,
       source_url = url item,
       topic_summary = source_summary_of item,
       ai_summary = [],
       image_url = first_image item,
       image_urls = take 3 (images item),
       channels = (if platform_strategy_keys rs = []
                   then [ascii ''twitter'', ascii ''wechat_blog'']
                   else platform_strategy_keys rs),
       status = [24453, 30830, 35748],
       cp_trace_id = trace_id \<rparr>"

definition build_remember_request ::
  "source_config \<Rightarrow> normalized_item \<Rightarrow> response \<Rightarrow> remember_request" where
  "build_remember_request source item archive_result =
     \<lparr> rm_source_id = sc_id source,
       rm_url_hash = url_hash item,
       rm_title = title item,
       rm_url = url item,
       rm_summary = source_summary_of item,
       rm_keywords = item_keywords item,
       rm_raw_text = raw_text item,
       archive_url = (case archive_result of ArchiveResponse doc_url _ \<Rightarrow> doc_url | _ \<Rightarrow> []),
       rm_image_url = first_image item \<rparr>"

definition item_trace_id :: "source_config \<Rightarrow> normalized_item \<Rightarrow> ustr" where
  "item_trace_id source item =
     (if url_hash item \<noteq> [] then take 8 (url_hash item) else sc_id source)"

text \<open>
  The block under \<open>with bind_log_context(trace_id=trace_id)\<close> for one item. It returns
  the counters as the block leaves them, or the exception that leaves the block.
\<close>

definition item_body ::
  "'w host \<Rightarrow> source_config \<Rightarrow> normalized_item \<Rightarrow> counters \<Rightarrow> 'w pulse \<Rightarrow>
   (exn + counters) \<times> 'w pulse" where
  "item_body H source item c s =
     (let (r1, s1) = post_json H (CheckDuplicate (url_hash item)) s
      in case r1 of
           Inl e \<Rightarrow> (Inl e, s1)
         | Inr duplicate \<Rightarrow>
             if (case duplicate of DuplicateCheckResponse b \<Rightarrow> b | _ \<Rightarrow> False)
             then (Inr (c\<lparr>c_duplicated := c_duplicated c + 1\<rparr>), s1)
             else if \<not> is_high_value_signal (tables H) item
             then (Inr (c\<lparr>c_filtered := c_filtered c + 1\<rparr>), s1)
             else
               (let pack = build_content_pack (tables H) (rules s1) source item
                             (item_trace_id source item);
                    (r2, s2) = post_json H (Archive pack) s1
                in case r2 of
                     Inl e \<Rightarrow> (Inl e, s2)
                   | Inr archive_result \<Rightarrow>
                       (let (r3, s3) =
                              post_json H (Remember (build_remember_request source item archive_result)) s2
                        in case r3 of
                             Inl e \<Rightarrow> (Inl e, s3)
                           | Inr _ \<Rightarrow> (Inr (c\<lparr>c_processed := c_processed c + 1\<rparr>), s3))))"

text \<open>One turn of \<open>for item in items\<close>: the block in its trace context, and the handler of
  the inner \<open>try\<close>.\<close>

definition run_item ::
  "'w host \<Rightarrow> source_config \<Rightarrow> normalized_item \<Rightarrow> counters \<times> 'w pulse \<Rightarrow> counters \<times> 'w pulse" where
  "run_item H source item cs =
     (let (c, s) = cs;
          (r, s1) = bind_log_context (Some (item_trace_id source item)) None
                      (item_body H source item c) s
      in case r of
           Inr c1 \<Rightarrow> (c1, s1)
         | Inl item_exc \<Rightarrow>
             (c\<lparr>c_failed := c_failed c + 1\<rparr>,
              s1\<lparr>logged := logged s1 @ [ItemFailed (sc_id source) item_exc]\<rparr>))"

definition run_items ::
  "'w host \<Rightarrow> source_config \<Rightarrow> normalized_item list \<Rightarrow> counters \<times> 'w pulse \<Rightarrow> counters \<times> 'w pulse" where
  "run_items H source items cs = foldl (\<lambda>acc item. run_item H source item acc) cs items"

text \<open>The block under \<open>with self._run_lock\<close>: the scan, the loop, and the handler of the
  outer \<open>try\<close>.\<close>

definition locked_block ::
  "'w host \<Rightarrow> source_config \<Rightarrow> counters \<Rightarrow> 'w pulse \<Rightarrow> counters \<times> 'w pulse" where
  "locked_block H source c s =
     (let (r, s1) = post_json H (Scan source) s
      in case r of
           Inl exc \<Rightarrow>
             (c\<lparr>c_failed := c_failed c + 1\<rparr>,
              s1\<lparr>logged := logged s1 @ [SourceFailed (sc_id source) exc]\<rparr>)
         | Inr scan_response \<Rightarrow>
             (let items = (case scan_response of ScanResponse xs \<Rightarrow> xs | _ \<Rightarrow> [])
              in run_items H source items (c\<lparr>c_scanned := int (length items)\<rparr>, s1)))"

definition model_dump :: "pulse_run_result \<Rightarrow> (ustr \<times> jvalue) list" where
  "model_dump r =
     [(ascii ''source_id'', JStr (source_id r)),
      (ascii ''scanned'', JInt (scanned r)),
      (ascii ''processed'', JInt (processed r)),
      (ascii ''duplicated'', JInt (duplicated r)),
      (ascii ''failed'', JInt (failed r)),
      (ascii ''started_at'', JDatetime (started_at r)),
      (ascii ''ended_at'', JDatetime (ended_at r))]"

definition run_source ::
  "'w host \<Rightarrow> source_config \<Rightarrow> 'w pulse \<Rightarrow> (ustr \<times> jvalue) list \<times> 'w pulse" where
  "run_source H source s =
     (let (started, w0) = utcnow H (world s);
          c0 = \<lparr> c_scanned = 0, c_processed = 0, c_duplicated = 0, c_filtered = 0, c_failed = 0 \<rparr>;
          s0 = s\<lparr>world := w0, logged := logged s @ [HeartbeatStart (sc_id source)]\<rparr>;
          (c, s1) = locked_block H source c0 s0;
          (ended, w2) = utcnow H (world s1);
          result = \<lparr> source_id = sc_id source, scanned = c_scanned c, processed = c_processed c,
                     duplicated = c_duplicated c, failed = c_failed c,
                     started_at = started, ended_at = ended \<rparr>;
          serialized = model_dump result;
          s2 = s1\<lparr>world := w2, last_runs := (last_runs s1)(sc_id source \<mapsto> serialized)\<rparr>
      in (serialized,
          s2\<lparr>logged := logged s2 @
             [HeartbeatDone (sc_id source) (c_scanned c) (c_processed c) (c_duplicated c)
                (c_filtered c) (c_failed c)]\<rparr>))"

section \<open>Scheduler engine (services/pulse/main.py)\<close>

definition config_watcher :: ustr where
  "config_watcher = ascii ''config_watcher''"

text \<open>The job store. \<open>add_job\<close> is always called with \<open>replace_existing=True\<close>: a job with
  the same id is replaced, otherwise the job is added. \<open>remove_job\<close> removes the job with
  the given id.\<close>

fun add_job :: "job \<Rightarrow> job list \<Rightarrow> job list" where
  "add_job j [] = [j]"
| "add_job j (k # ks) = (if job_id k = job_id j then j # ks else k # add_job j ks)"

fun remove_job :: "ustr \<Rightarrow> job list \<Rightarrow> job list" where
  "remove_job i [] = []"
| "remove_job i (k # ks) = (if job_id k = i then ks else k # remove_job i ks)"

text \<open>\<open>_clear_runtime_jobs\<close>: the loop runs over the snapshot \<open>get_jobs()\<close> and removes from
  the store.\<close>

definition clear_runtime_jobs :: "job list \<Rightarrow> job list" where
  "clear_runtime_jobs js =
     foldl (\<lambda>store j. if job_id j = config_watcher then store else remove_job (job_id j) store) js js"

text \<open>\<open>text.split(":")\<close>.\<close>

fun split_on :: "uchar \<Rightarrow> ustr \<Rightarrow> ustr list" where
  "split_on sep [] = [[]]"
| "split_on sep (c # cs) =
     (if c = sep then [] # split_on sep cs
      else case split_on sep cs of
             [] \<Rightarrow> [[c]]
           | p # ps \<Rightarrow> (c # p) # ps)"

definition parse_schedule_hhmm :: "unicode \<Rightarrow> ustr \<Rightarrow> exn + int \<times> int" where
  "parse_schedule_hhmm U raw =
     (case split_on 58 (strip U raw) of
        [p0, p1] \<Rightarrow>
          (case py_int U p0 of
             Inl e \<Rightarrow> Inl e
           | Inr hour \<Rightarrow>
               (case py_int U p1 of
                  Inl e \<Rightarrow> Inl e
                | Inr minute \<Rightarrow> Inr (hour, minute)))
      | _ \<Rightarrow> Inl ValueError)"

definition source_job :: "source_config \<Rightarrow> int \<Rightarrow> ustr \<Rightarrow> job" where
  "source_job source seconds tz =
     \<lparr> job_id = ascii ''source::'' @ sc_id source, func = RunSource source,
       job_trigger = IntervalTrigger seconds (Some tz),
       max_instances = Some 1, coalesce = Some True \<rparr>"

definition platform_job :: "ustr \<Rightarrow> int \<Rightarrow> int \<Rightarrow> ustr \<Rightarrow> job" where
  "platform_job name hour minute tz =
     \<lparr> job_id = ascii ''platform::'' @ name, func = RunAllSources name,
       job_trigger = CronTrigger hour minute tz,
       max_instances = Some 1, coalesce = Some True \<rparr>"

definition maintenance_job :: "ustr \<Rightarrow> job" where
  "maintenance_job tz =
     \<lparr> job_id = ascii ''maintenance::cleanup'', func = CleanupMemory,
       job_trigger = CronTrigger 3 30 tz,
       max_instances = Some 1, coalesce = None \<rparr>"

definition watcher_job :: job where
  "watcher_job =
     \<lparr> job_id = config_watcher, func = WatchRules,
       job_trigger = IntervalTrigger 60 None,
       max_instances = None, coalesce = None \<rparr>"

text \<open>The loop over the sources, already sorted. An exception leaves the loop with the job
  store as it is at that moment.\<close>

fun install_sources :: "'w host \<Rightarrow> ustr \<Rightarrow> source_config list \<Rightarrow> job list \<Rightarrow> exn option \<times> job list" where
  "install_sources H tz [] js = (None, js)"
| "install_sources H tz (source # rest) js =
     (case interval_to_seconds (tables H) (fetch_interval source) of
        Inl e \<Rightarrow> (Some e, js)
      | Inr seconds \<Rightarrow>
          (case interval_trigger_error H seconds of
             Some e \<Rightarrow> (Some e, js)
           | None \<Rightarrow> install_sources H tz rest (add_job (source_job source seconds tz) js)))"

fun install_platforms ::
  "'w host \<Rightarrow> ustr \<Rightarrow> (ustr \<times> platform_policy) list \<Rightarrow> job list \<Rightarrow> exn option \<times> job list" where
  "install_platforms H tz [] js = (None, js)"
| "install_platforms H tz ((name, policy) # rest) js =
     (case schedule policy of
        None \<Rightarrow> install_platforms H tz rest js
      | Some hhmm \<Rightarrow>
          if \<not> enabled policy \<or> hhmm = [] then install_platforms H tz rest js
          else case parse_schedule_hhmm (tables H) hhmm of
                 Inl e \<Rightarrow> (Some e, js)
               | Inr (hour, minute) \<Rightarrow>
                   (case cron_trigger_error H hour minute of
                      Some e \<Rightarrow> (Some e, js)
                    | None \<Rightarrow>
                        install_platforms H tz rest (add_job (platform_job name hour minute tz) js)))"

text \<open>
  \<open>_load_and_schedule\<close> up to and including the resolution of the timezone: an exception,
  or nothing to do (\<open>None\<close>), or the fingerprint, rules and timezone to install.
\<close>

definition prepare_reload ::
  "'w host \<Rightarrow> bool \<Rightarrow> 'w pulse \<Rightarrow> (exn + (ustr \<times> rules_config \<times> ustr) option) \<times> 'w pulse" where
  "prepare_reload H force s =
     (let (r, s1) = rules_fingerprint H s
      in case r of
           Inl e \<Rightarrow> (Inl e, s1)
         | Inr new_fingerprint \<Rightarrow>
             if \<not> force \<and> new_fingerprint = fingerprint s1 then (Inr None, s1)
             else
               (let (r2, s2) = load_rules H s1
                in case r2 of
                     Inl e \<Rightarrow> (Inl e, s2)
                   | Inr rs \<Rightarrow>
                       (case zone_info H (timezone (global_config rs)) of
                          Inl e \<Rightarrow> (Inl e, s2)
                        | Inr tz \<Rightarrow> (Inr (Some (new_fingerprint, rs, tz)), s2))))"

text \<open>
  \<open>_load_and_schedule\<close> from \<open>self._clear_runtime_jobs()\<close> to the maintenance job, on the
  job store.
\<close>

definition install_topology :: "'w host \<Rightarrow> rules_config \<Rightarrow> ustr \<Rightarrow> job list \<Rightarrow> exn option \<times> job list" where
  "install_topology H rs tz js =
     (case install_sources H tz (sort_key (\<lambda>src. - weight src) (sources rs)) (clear_runtime_jobs js) of
        (Some e, js1) \<Rightarrow> (Some e, js1)
      | (None, js1) \<Rightarrow>
          (case install_platforms H tz (platforms rs) js1 of
             (Some e, js2) \<Rightarrow> (Some e, js2)
           | (None, js2) \<Rightarrow>
               (case cron_trigger_error H 3 30 of
                  Some e \<Rightarrow> (Some e, js2)
                | None \<Rightarrow> (None, add_job (maintenance_job tz) js2))))"

definition load_and_schedule :: "'w host \<Rightarrow> bool \<Rightarrow> 'w pulse \<Rightarrow> (exn + unit) \<times> 'w pulse" where
  "load_and_schedule H force s =
     (case prepare_reload H force s of
        (Inl e, s1) \<Rightarrow> (Inl e, s1)
      | (Inr None, s1) \<Rightarrow> (Inr (), s1)
      | (Inr (Some (new_fingerprint, rs, tz)), s1) \<Rightarrow>
          (case install_topology H rs tz (jobs s1) of
             (Some e, js) \<Rightarrow> (Inl e, s1\<lparr>jobs := js\<rparr>)
           | (None, js) \<Rightarrow>
               (Inr (), s1\<lparr>jobs := js, rules := Some rs, fingerprint := new_fingerprint,
                            logged := logged s1 @ [LoadedSources (length (sources rs))]\<rparr>)))"

definition watch_rules :: "'w host \<Rightarrow> 'w pulse \<Rightarrow> 'w pulse" where
  "watch_rules H s =
     (let (r, s1) = rules_fingerprint H s
      in case r of
           Inl exc \<Rightarrow> s1\<lparr>logged := logged s1 @ [WatchFailed exc]\<rparr>
         | Inr current \<Rightarrow>
             if current \<noteq> fingerprint s1 then
               (let (r2, s2) = load_and_schedule H True (s1\<lparr>logged := logged s1 @ [RulesChanged]\<rparr>)
                in case r2 of
                     Inl exc \<Rightarrow> s2\<lparr>logged := logged s2 @ [WatchFailed exc]\<rparr>
                   | Inr _ \<Rightarrow> s2)
             else s1)"

definition start :: "'w host \<Rightarrow> 'w pulse \<Rightarrow> (exn + unit) \<times> 'w pulse" where
  "start H s =
     (let (r, s1) = load_and_schedule H True s
      in case r of
           Inl e \<Rightarrow> (Inl e, s1)
         | Inr _ \<Rightarrow>
             (case interval_trigger_error H 60 of
                Some e \<Rightarrow> (Inl e, s1)
              | None \<Rightarrow>
                  (Inr (), s1\<lparr>jobs := add_job watcher_job (jobs s1),
                               logged := logged s1 @ [SchedulerStarted]\<rparr>)))"

text \<open>\<open>PulseEngine.__init__\<close>, in a fresh context.\<close>

definition new_engine :: "'w \<Rightarrow> 'w pulse" where
  "new_engine w =
     \<lparr> trace_var = None, request_var = None, world = w, sent = [], logged = [],
       rules = None, fingerprint = [], last_runs = Map.empty, jobs = [] \<rparr>"

section \<open>The run lock\<close>

text \<open>
  The engine has one lock, \<open>self._run_lock\<close>, created once in \<open>__init__\<close>, and every call of
  \<open>run_source\<close> executes its scan and item loop under \<open>with self._run_lock\<close>. A call is
  \<open>Waiting\<close> before it has the lock, \<open>Locked\<close> while it is inside the block and \<open>Released\<close>
  after it. The calls in progress are listed with the id of their source.
\<close>

datatype phase = Waiting | Locked | Released

record lock_state =
  run_lock :: bool
  calls :: "(ustr \<times> phase) list"

definition call_run_source :: "ustr \<Rightarrow> lock_state \<Rightarrow> lock_state" where
  "call_run_source sid L = L\<lparr>calls := calls L @ [(sid, Waiting)]\<rparr>"

text \<open>One step of call number \<open>i\<close>: \<open>None\<close> when the call cannot move (it waits for the lock,
  or it is over).\<close>

definition advance :: "nat \<Rightarrow> lock_state \<Rightarrow> lock_state option" where
  "advance i L =
     (if i < length (calls L) then
        (case calls L ! i of
           (sid, Waiting) \<Rightarrow>
             if run_lock L then None
             else Some (L\<lparr>run_lock := True, calls := (calls L)[i := (sid, Locked)]\<rparr>)
         | (sid, Locked) \<Rightarrow>
             Some (L\<lparr>run_lock := False, calls := (calls L)[i := (sid, Released)]\<rparr>)
         | (sid, Released) \<Rightarrow> None)
      else None)"

inductive reachable :: "lock_state \<Rightarrow> bool" where
  init: "reachable \<lparr>run_lock = False, calls = []\<rparr>"
| call: "reachable L \<Longrightarrow> reachable (call_run_source sid L)"
| step: "reachable L \<Longrightarrow> advance i L = Some L' \<Longrightarrow> reachable L'"

section \<open>A concrete host\<close>

text \<open>
  A small world to run the model in: a rules file, a clock that advances at every reading,
  and a memory service that knows the hashes it was told to remember. The scan service
  knows one feed, with three items. The digest is a stand-in, the rules decoder knows two
  files, and the trigger constructors check their ranges.
\<close>

record demo_world =
  rules_file :: "byte list"
  clock :: int
  remembered :: "ustr list"

definition item_a :: normalized_item where
  "item_a = \<lparr> item_source_id = ascii ''feed'', url_hash = ascii ''aaaaaaaaaaaa'',
     title = ascii ''Old news'', url = ascii ''http://x/a'', summary = [], raw_text = [],
     published_at = None, images = [], item_keywords = [] \<rparr>"

definition item_b :: normalized_item where
  "item_b = \<lparr> item_source_id = ascii ''feed'', url_hash = ascii ''bbbbbbbbbbbb'',
     title = ascii ''Weather'', url = ascii ''http://x/b'', summary = ascii ''rain'',
     raw_text = ascii ''It rains.'', published_at = None, images = [], item_keywords = [] \<rparr>"

definition item_c :: normalized_item where
  "item_c = \<lparr> item_source_id = ascii ''feed'', url_hash = ascii ''cccccccccccc'',
     title = ascii ''New Agent Benchmark'', url = ascii ''http://x/c'', summary = [],
     raw_text = ascii ''A paper.'', published_at = None, images = [ascii ''http://x/c.png''],
     item_keywords = [ascii ''agent''] \<rparr>"

definition feed :: source_config where
  "feed = \<lparr> sc_id = ascii ''feed'', sc_type = ascii ''rss'', sc_url = ascii ''http://x/rss'',
     fetch_interval = ascii ''30m'', weight = 2, max_items = 5 \<rparr>"

definition broken_feed :: source_config where
  "broken_feed = \<lparr> sc_id = ascii ''broken'', sc_type = ascii ''rss'', sc_url = ascii ''http://y/rss'',
     fetch_interval = ascii ''30'', weight = 1, max_items = 5 \<rparr>"

definition old_feed :: source_config where
  "old_feed = \<lparr> sc_id = ascii ''old'', sc_type = ascii ''rss'', sc_url = ascii ''http://z/rss'',
     fetch_interval = ascii ''2h'', weight = 1, max_items = 5 \<rparr>"

definition demo_policy :: "bool \<Rightarrow> ustr option \<Rightarrow> platform_policy" where
  "demo_policy on hhmm = \<lparr> enabled = on, style_prompt = ascii ''default'', schedule = hhmm,
     max_posts_per_day = None, min_word_count = None \<rparr>"

definition demo_rules :: "source_config list \<Rightarrow> rules_config" where
  "demo_rules srcs =
     \<lparr> global_config = \<lparr> timezone = ascii ''Asia/Shanghai'', memory_retention_days = 30 \<rparr>,
       sources = srcs,
       platforms = [(ascii ''twitter'', demo_policy True (Some (ascii ''09:30''))),
                    (ascii ''wechat_blog'', demo_policy False None),
                    (ascii ''xhs'', demo_policy True None)],
       visual = \<lparr> default_style = ascii ''cyberpunk, data flow'', default_ratio = ascii ''16:9'' \<rparr> \<rparr>"

definition demo_http ::
  "request \<Rightarrow> (ustr \<times> ustr) list \<Rightarrow> demo_world \<Rightarrow> (exn + response) \<times> demo_world" where
  "demo_http req hdrs w =
     (case req of
        Scan source \<Rightarrow>
          if sc_id source = ascii ''feed'' then (Inr (ScanResponse [item_a, item_b, item_c]), w)
          else (Inl HTTPError, w)
      | CheckDuplicate h \<Rightarrow> (Inr (DuplicateCheckResponse (h \<in> set (remembered w))), w)
      | Archive pack \<Rightarrow> (Inr (ArchiveResponse (ascii ''doc://'' @ cp_url_hash pack) (ascii ''ok'')), w)
      | Remember r \<Rightarrow> (Inr StatusOk, w\<lparr>remembered := rm_url_hash r # remembered w\<rparr>))"

definition demo_host :: "demo_world host" where
  "demo_host =
     \<lparr> http_post = demo_http,
       utcnow = (\<lambda>w. (clock w, w\<lparr>clock := clock w + 1\<rparr>)),
       read_bytes = (\<lambda>w. (Inr (rules_file w), w)),
       sha256 = (\<lambda>raw. foldl (\<lambda>h b. 31 * h + ucast b) 7 raw),
       validate_rules = (\<lambda>raw. if raw = [1] then Inr (demo_rules [feed])
                                else if raw = [2] then Inr (demo_rules [broken_feed, feed])
                                else Inl YAMLError),
       zone_info = (\<lambda>key. if key = ascii ''Asia/Shanghai'' then Inr key else Inl ZoneInfoNotFoundError),
       interval_trigger_error = (\<lambda>seconds. if 86399999999999 < seconds then Some OverflowError else None),
       cron_trigger_error = (\<lambda>hour minute. if 0 \<le> hour \<and> hour \<le> 23 \<and> 0 \<le> minute \<and> minute \<le> 59
                                              then None else Some ValueError),
       tables = ascii_unicode \<rparr>"

text \<open>A running engine: the watcher and the jobs of an earlier configuration are installed,
  item a is already remembered, and the rules file now holds the given bytes.\<close>

definition demo_engine :: "byte list \<Rightarrow> demo_world pulse" where
  "demo_engine bytes =
     (new_engine \<lparr> rules_file = bytes, clock = 1000, remembered = [ascii ''aaaaaaaaaaaa''] \<rparr>)
       \<lparr> rules := Some (demo_rules [old_feed]),
         fingerprint := ascii ''0'',
         jobs := [watcher_job, source_job old_feed 7200 (ascii ''Asia/Shanghai''),
                  maintenance_job (ascii ''Asia/Shanghai'')] \<rparr>"

section \<open>What happened to an item\<close>

text \<open>
  The three ways an item leaves the block of \<open>run_source\<close> without an exception, named after
  the counter that the block increments, stated as what the collaborators answered.
  \<open>item_observed H source item k s s'\<close>: in state \<open>s\<close>, under the item's trace id, the
  duplicate check answered that the item is a duplicate (\<open>Duplicated\<close>); or it answered
  that it is not, and the item fails the value filter (\<open>Filtered\<close>); or it answered that it
  is not, the item passes the filter, and the archive call and then the remember call
  returned (\<open>Processed\<close>). \<open>s'\<close> is the state after the last of these calls.
\<close>

datatype outcome = Duplicated | Filtered | Processed

definition item_observed ::
  "'w host \<Rightarrow> source_config \<Rightarrow> normalized_item \<Rightarrow> outcome \<Rightarrow> 'w pulse \<Rightarrow> 'w pulse \<Rightarrow> bool" where
  "item_observed H source item k s s' =
     (let s0 = s\<lparr>trace_var := Some (normalize_id (item_trace_id source item) [])\<rparr>;
          check = post_json H (CheckDuplicate (url_hash item)) s0
      in case k of
           Duplicated \<Rightarrow> check = (Inr (DuplicateCheckResponse True), s')
         | Filtered \<Rightarrow>
             check = (Inr (DuplicateCheckResponse False), s') \<and>
             \<not> is_high_value_signal (tables H) item
         | Processed \<Rightarrow>
             fst check = Inr (DuplicateCheckResponse False) \<and>
             is_high_value_signal (tables H) item \<and>
             (case post_json H
                     (Archive (build_content_pack (tables H) (rules s) source item
                                 (item_trace_id source item)))
                     (snd check) of
                (Inl e, s2) \<Rightarrow> False
              | (Inr archive_result, s2) \<Rightarrow>
                  (case post_json H (Remember (build_remember_request source item archive_result)) s2 of
                     (Inl e, s3) \<Rightarrow> False
                   | (Inr ack, s3) \<Rightarrow> s' = s3)))"

definition count_outcome :: "outcome \<Rightarrow> counters \<Rightarrow> counters" where
  "count_outcome k c =
     (case k of
        Duplicated \<Rightarrow> c\<lparr>c_duplicated := c_duplicated c + 1\<rparr>
      | Filtered \<Rightarrow> c\<lparr>c_filtered := c_filtered c + 1\<rparr>
      | Processed \<Rightarrow> c\<lparr>c_processed := c_processed c + 1\<rparr>)"

section \<open>Properties of the text functions and the interval parser\<close>

lemma dropWhile_keep: "s \<noteq> [] \<Longrightarrow> \<not> P (hd s) \<Longrightarrow> dropWhile P s = s"
  by (cases s) auto

lemma last_dropWhile_keep: "dropWhile P s \<noteq> [] \<Longrightarrow> last (dropWhile P s) = last s"
  by (induction s) (auto split: if_splits)

lemma dropWhile_rev_nonempty: "dropWhile P (rev a) \<noteq> [] \<Longrightarrow> a \<noteq> []"
  by (cases a) auto

lemma strip_fixed:
  assumes "s \<noteq> []" "\<not> py_isspace U (hd s)" "\<not> py_isspace U (last s)"
  shows "strip U s = s"
proof -
  have a: "dropWhile (py_isspace U) s = s" using assms by (simp add: dropWhile_keep)
  have "dropWhile (py_isspace U) (rev s) = rev s"
    using assms by (intro dropWhile_keep) (simp_all add: hd_rev)
  with a show ?thesis by (simp add: strip_def)
qed

lemma strip_ends:
  assumes "strip U s \<noteq> []"
  shows "\<not> py_isspace U (hd (strip U s)) \<and> \<not> py_isspace U (last (strip U s))"
proof -
  let ?P = "py_isspace U"
  let ?a = "dropWhile ?P s"
  let ?b = "dropWhile ?P (rev ?a)"
  have st: "strip U s = rev ?b" by (simp add: strip_def)
  with assms have b: "?b \<noteq> []" by simp
  have a: "?a \<noteq> []" using b by (rule dropWhile_rev_nonempty)
  have "\<not> ?P (hd ?b)" using b by (rule hd_dropWhile)
  then have l: "\<not> ?P (last (strip U s))" using b st by (simp add: last_rev)
  have "last ?b = last (rev ?a)" using b by (rule last_dropWhile_keep)
  then have "last ?b = hd ?a" using a by (simp add: last_rev)
  moreover have "\<not> ?P (hd ?a)" using a by (rule hd_dropWhile)
  ultimately have "\<not> ?P (hd (strip U s))" using b st by (simp add: hd_rev)
  with l show ?thesis by simp
qed

lemma int_digits_all:
  "\<forall>c \<in> set ds. isdecimal U c \<Longrightarrow>
   int_digits U acc ds = (if acc @ ds = [] then None else Some (acc @ ds))"
  by (induction ds arbitrary: acc) auto

lemma pattern_iff:
  assumes "\<not> isdecimal U 109" "\<not> isdecimal U 104"
  shows "interval_pattern_match U t = Some (ds, u) \<longleftrightarrow>
     ds \<noteq> [] \<and> (\<forall>c \<in> set ds. isdecimal U c) \<and> (u = 109 \<or> u = 104) \<and>
     (t = ds @ [u] \<or> t = ds @ [u, 10])"
proof
  assume m: "interval_pattern_match U t = Some (ds, u)"
  have t: "t = takeWhile (isdecimal U) t @ dropWhile (isdecimal U) t" by simp
  from m have "ds = takeWhile (isdecimal U) t \<and> ds \<noteq> [] \<and> (u = 109 \<or> u = 104) \<and>
      (dropWhile (isdecimal U) t = [u] \<or> dropWhile (isdecimal U) t = [u, 10])"
    by (auto simp: interval_pattern_match_def Let_def split: if_splits list.splits)
  then show "ds \<noteq> [] \<and> (\<forall>c \<in> set ds. isdecimal U c) \<and> (u = 109 \<or> u = 104) \<and>
     (t = ds @ [u] \<or> t = ds @ [u, 10])"
    using t by (metis set_takeWhileD)
next
  assume r: "ds \<noteq> [] \<and> (\<forall>c \<in> set ds. isdecimal U c) \<and> (u = 109 \<or> u = 104) \<and>
     (t = ds @ [u] \<or> t = ds @ [u, 10])"
  then have nu: "\<not> isdecimal U u" using assms by auto
  from r nu have "takeWhile (isdecimal U) t = ds \<and>
     (dropWhile (isdecimal U) t = [u] \<or> dropWhile (isdecimal U) t = [u, 10])"
    by (auto simp: takeWhile_append2 dropWhile_append2)
  with r show "interval_pattern_match U t = Some (ds, u)"
    by (auto simp: interval_pattern_match_def Let_def)
qed

lemma ascii_unicode_ok: "unicode_ok ascii_unicode"
  by (auto simp: unicode_ok_def ascii_unicode_def ascii_lower_def last_map)

lemma unicode_ok_isspace: "unicode_ok U \<Longrightarrow> c < 128 \<Longrightarrow> py_isspace U c = py_isspace ascii_unicode c"
  by (simp add: unicode_ok_def)

lemma unicode_ok_decimal: "unicode_ok U \<Longrightarrow> c < 128 \<Longrightarrow> py_decimal U c = py_decimal ascii_unicode c"
  by (simp add: unicode_ok_def)

lemma unicode_ok_lower:
  "unicode_ok U \<Longrightarrow> \<forall>c \<in> set s. c < 128 \<Longrightarrow> py_lower U s = map ascii_lower s"
  by (simp add: unicode_ok_def)

lemma unicode_ok_digit_not_space:
  "unicode_ok U \<Longrightarrow> isdecimal U c \<Longrightarrow> \<not> py_isspace U c"
  by (auto simp: unicode_ok_def isdecimal_def)

lemma unicode_ok_lower_newline:
  "unicode_ok U \<Longrightarrow> s \<noteq> [] \<Longrightarrow> last s \<noteq> 10 \<Longrightarrow> py_lower U s \<noteq> [] \<and> last (py_lower U s) \<noteq> 10"
  by (simp add: unicode_ok_def)

lemma unicode_ok_lower_Nil: "unicode_ok U \<Longrightarrow> py_lower U [] = []"
  by (simp add: unicode_ok_def)

lemma py_int_digits:
  assumes ok: "unicode_ok U" and ne: "ds \<noteq> []" and dec: "\<forall>c \<in> set ds. isdecimal U c"
  shows "py_int U ds =
    (if 640 < length ds \<and> 0 < py_max_str_digits U \<and> py_max_str_digits U < length ds
     then Inl ValueError else Inr (int (decimal_value U ds)))"
proof -
  have "isdecimal U (hd ds)" "isdecimal U (last ds)" using ne dec by simp_all
  then have "\<not> py_isspace U (hd ds)" "\<not> py_isspace U (last ds)"
    using ok by (simp_all add: unicode_ok_digit_not_space)
  then have s: "strip U ds = ds" using ne by (simp add: strip_fixed)
  have "\<not> isdecimal U 45" "\<not> isdecimal U 43"
    using ok by (simp_all add: isdecimal_def unicode_ok_decimal ascii_unicode_def)
  then have h: "hd ds \<noteq> 45 \<and> hd ds \<noteq> 43" using ne dec by (metis hd_in_set)
  show ?thesis using s h ne dec by (simp add: py_int_def Let_def int_digits_all)
qed

lemma lowered_strip_no_newline:
  assumes ok: "unicode_ok U"
  shows "py_lower U (strip U text) \<noteq> ds @ [u, 10]"
proof (cases "strip U text = []")
  case True
  then show ?thesis using ok by (simp add: unicode_ok_lower_Nil)
next
  case False
  then have "\<not> py_isspace U (last (strip U text))" by (simp add: strip_ends)
  moreover have "py_isspace U 10" using ok by (simp add: unicode_ok_isspace ascii_unicode_def)
  ultimately have "last (strip U text) \<noteq> 10" by auto
  then have "last (py_lower U (strip U text)) \<noteq> 10"
    using ok False by (simp add: unicode_ok_lower_newline)
  then show ?thesis by auto
qed

lemma interval_to_seconds_iff:
  assumes ok: "unicode_ok U"
  shows "interval_to_seconds U text = Inr n \<longleftrightarrow>
     (\<exists>ds u. py_lower U (strip U text) = ds @ [u] \<and> ds \<noteq> [] \<and> (\<forall>c \<in> set ds. isdecimal U c) \<and>
        (u = 109 \<or> u = 104) \<and>
        \<not> (640 < length ds \<and> 0 < py_max_str_digits U \<and> py_max_str_digits U < length ds) \<and>
        n = int (decimal_value U ds) * (if u = 109 then 60 else 3600))"
  (is "?L \<longleftrightarrow> ?R")
proof -
  have nd: "\<not> isdecimal U 109" "\<not> isdecimal U 104"
    using ok by (simp_all add: isdecimal_def unicode_ok_decimal ascii_unicode_def)
  note pm = pattern_iff [OF nd]
  show ?thesis
  proof
    assume l: ?L
    then obtain ds u where m: "interval_pattern_match U (py_lower U (strip U text)) = Some (ds, u)"
      by (auto simp: interval_to_seconds_def split: option.splits)
    then have f: "ds \<noteq> []" "\<forall>c \<in> set ds. isdecimal U c" "u = 109 \<or> u = 104"
      and t: "py_lower U (strip U text) = ds @ [u]"
      using pm [of "py_lower U (strip U text)" ds u] lowered_strip_no_newline [OF ok, of "text" ds u]
      by auto
    from l m f show ?R
      using t by (auto simp: interval_to_seconds_def py_int_digits [OF ok] split: if_splits)
  next
    assume ?R
    then obtain ds u where t: "py_lower U (strip U text) = ds @ [u]"
      and f: "ds \<noteq> []" "\<forall>c \<in> set ds. isdecimal U c" "u = 109 \<or> u = 104"
      and lim: "\<not> (640 < length ds \<and> 0 < py_max_str_digits U \<and> py_max_str_digits U < length ds)"
      and n: "n = int (decimal_value U ds) * (if u = 109 then 60 else 3600)"
      by blast
    have m: "interval_pattern_match U (py_lower U (strip U text)) = Some (ds, u)"
      using pm [of "py_lower U (strip U text)" ds u] t f by simp
    show ?L using m f lim n by (auto simp: interval_to_seconds_def py_int_digits [OF ok])
  qed
qed

lemmas interval_eval =
  interval_to_seconds_def interval_pattern_match_def ascii_unicode_def ascii_def
  strip_def ascii_lower_def py_int_def isdecimal_def decimal_value_def digit_value_def
  unicode_ok_isspace unicode_ok_decimal unicode_ok_lower

lemma interval_examples:
  assumes "unicode_ok U"
  shows "interval_to_seconds U (ascii ''30m'') = Inr 1800"
    and "interval_to_seconds U (ascii ''2h'') = Inr 7200"
    and "interval_to_seconds U (ascii '' 2H '') = Inr 7200"
    and "interval_to_seconds U (ascii ''0m'') = Inr 0"
    and "interval_to_seconds U (ascii ''30'') = Inl ValueError"
    and "interval_to_seconds U (ascii ''2d'') = Inl ValueError"
    and "interval_to_seconds U (ascii []) = Inl ValueError"
    and "interval_to_seconds U (ascii ''-5m'') = Inl ValueError"
  using assms by (simp_all add: interval_eval)

lemma interval_error_is_ValueError:
  "interval_to_seconds U t = Inl e \<Longrightarrow> e = ValueError"
  by (auto simp: interval_to_seconds_def py_int_def Let_def split: option.splits sum.splits if_splits)

text \<open>
  C4, as amended. With any Unicode database that agrees with ASCII, \<open>interval_to_seconds\<close>
  returns a number exactly for the texts that, once surrounding whitespace is stripped and
  the text is lowercased, are one or more decimal digits followed by \<open>m\<close> or \<open>h\<close> (and have
  no more digits than \<open>int()\<close> converts); the number is the value of the digits times 60
  for \<open>m\<close> and times 3600 for \<open>h\<close>. Every other text raises \<open>ValueError\<close>. So \<open>30m\<close> is 1800
  and \<open>2h\<close> is 7200, case and surrounding whitespace do not matter, a negative value, a
  missing unit, an unknown unit and the empty text fail, and zero is accepted: \<open>0m\<close> is 0.
\<close>

theorem interval_to_seconds_accepts:
  assumes "unicode_ok U"
  shows "(interval_to_seconds U t = Inr n \<longleftrightarrow>
           (\<exists>ds u. py_lower U (strip U t) = ds @ [u] \<and> ds \<noteq> [] \<and>
              (\<forall>c \<in> set ds. isdecimal U c) \<and> (u = 109 \<or> u = 104) \<and>
              \<not> (640 < length ds \<and> 0 < py_max_str_digits U \<and> py_max_str_digits U < length ds) \<and>
              n = int (decimal_value U ds) * (if u = 109 then 60 else 3600))) \<and>
         (\<forall>e. interval_to_seconds U t = Inl e \<longrightarrow> e = ValueError) \<and>
         interval_to_seconds U (ascii ''30m'') = Inr 1800 \<and>
         interval_to_seconds U (ascii ''2h'') = Inr 7200 \<and>
         interval_to_seconds U (ascii '' 2H '') = Inr 7200 \<and>
         interval_to_seconds U (ascii ''0m'') = Inr 0 \<and>
         interval_to_seconds U (ascii ''30'') = Inl ValueError \<and>
         interval_to_seconds U (ascii ''2d'') = Inl ValueError \<and>
         interval_to_seconds U (ascii []) = Inl ValueError \<and>
         interval_to_seconds U (ascii ''-5m'') = Inl ValueError"
  using interval_to_seconds_iff [OF assms, of t n] interval_examples [OF assms]
    interval_error_is_ValueError [of U t]
  by blast

theorem interval_to_seconds_accepts_witness:
  "unicode_ok ascii_unicode \<and>
   interval_to_seconds ascii_unicode (ascii ''45m'') = Inr 2700 \<and>
   py_lower ascii_unicode (strip ascii_unicode (ascii ''45m'')) = ascii ''45'' @ [109] \<and>
   interval_to_seconds ascii_unicode (ascii ''30m'') = Inr 1800 \<and>
   interval_to_seconds ascii_unicode (ascii ''2d'') = Inl ValueError"
proof -
  have ok: "unicode_ok ascii_unicode" by (rule ascii_unicode_ok)
  have t: "py_lower ascii_unicode (strip ascii_unicode (ascii ''45m'')) = ascii ''45'' @ [109]"
    by (simp add: ascii_unicode_def ascii_def strip_def ascii_lower_def)
  have d: "\<forall>c \<in> set (ascii ''45''). isdecimal ascii_unicode c"
    by (simp add: ascii_unicode_def ascii_def isdecimal_def)
  have v: "int (decimal_value ascii_unicode (ascii ''45'')) * 60 = 2700"
    by (simp add: ascii_unicode_def ascii_def decimal_value_def digit_value_def)
  have n: "ascii ''45'' \<noteq> []" by (simp add: ascii_def)
  have "interval_to_seconds ascii_unicode (ascii ''45m'') = Inr 2700"
    using interval_to_seconds_accepts [OF ok, of "ascii ''45m''" 2700] t d v n
    by (auto simp: ascii_def)
  then show ?thesis
    using interval_to_seconds_accepts [OF ok, of "[]" 0] ok t by simp
qed

text \<open>Zero is not rejected: the pattern accepts the digit 0 and nothing checks the value.\<close>

theorem interval_to_seconds_zero:
  "interval_to_seconds ascii_unicode (ascii ''0m'') = Inr 0"
  by (simp add: interval_to_seconds_def interval_pattern_match_def ascii_unicode_def ascii_def
      strip_def ascii_lower_def py_int_def isdecimal_def decimal_value_def digit_value_def)

section \<open>Properties of the trace context\<close>

lemma normalize_id_empty_fallback: "normalize_id v [] = take 64 (filter id_char v)"
  by (simp add: normalize_id_def Let_def)

lemma id_text_normalize_id: "id_text (normalize_id v [])"
  by (auto simp: normalize_id_empty_fallback id_text_def list_all_iff dest: in_set_takeD)

lemma id_text_strip:
  assumes "id_text v"
  shows "id_text (strip U v)"
proof -
  let ?a = "dropWhile (py_isspace U) v"
  let ?b = "dropWhile (py_isspace U) (rev ?a)"
  have "set ?b \<subseteq> set (rev ?a)" by (auto dest: set_dropWhileD)
  moreover have "set ?a \<subseteq> set v" by (auto dest: set_dropWhileD)
  ultimately have s: "set ?b \<subseteq> set v" by auto
  have "length ?b \<le> length (rev ?a)" by (rule length_dropWhile_le)
  moreover have "length ?a \<le> length v" by (rule length_dropWhile_le)
  ultimately have l: "length ?b \<le> length v" by simp
  have "strip U v = rev ?b" by (simp add: strip_def)
  then show ?thesis using assms s l by (auto simp: id_text_def list_all_iff)
qed

lemma enter_trace_var:
  "trace_var (snd (enter_log_context trace_id request_id s)) =
     (case trace_id of None \<Rightarrow> trace_var s | Some t \<Rightarrow> Some (normalize_id t []))"
  by (simp add: enter_log_context_def split: option.splits)

lemma enter_request_var:
  "request_var (snd (enter_log_context trace_id request_id s)) =
     (case request_id of None \<Rightarrow> request_var s | Some r \<Rightarrow> Some (normalize_id r []))"
  by (simp add: enter_log_context_def split: option.splits)

lemma enter_tokens:
  "fst (enter_log_context trace_id request_id s) =
     ((case trace_id of None \<Rightarrow> None | Some _ \<Rightarrow> Some (trace_var s)),
      (case request_id of None \<Rightarrow> None | Some _ \<Rightarrow> Some (request_var s)))"
  by (simp add: enter_log_context_def split: option.splits)

lemma exit_trace_var:
  "trace_var (exit_log_context tokens s) = (case fst tokens of None \<Rightarrow> trace_var s | Some old \<Rightarrow> old)"
  by (simp add: exit_log_context_def split: option.splits)

lemma exit_request_var:
  "request_var (exit_log_context tokens s) =
     (case snd tokens of None \<Rightarrow> request_var s | Some old \<Rightarrow> old)"
  by (simp add: exit_log_context_def split: option.splits)

lemma bound_context_normalized:
  "bound_context c \<Longrightarrow>
     (\<forall>v. trace_var c = Some v \<longrightarrow> id_text v) \<and> (\<forall>v. request_var c = Some v \<longrightarrow> id_text v)"
proof (induction rule: bound_context.induct)
  case fresh
  show ?case by simp
next
  case (entered c trace_id request_id)
  then show ?case
    by (auto simp: enter_trace_var enter_request_var id_text_normalize_id split: option.splits)
next
  case (left c c' trace_id request_id)
  then show ?case
    by (auto simp: exit_trace_var exit_request_var enter_tokens split: option.splits)
qed

lemma id_text_Nil: "id_text []"
  by (simp add: id_text_def)

text \<open>
  C10. A trace id or request id given to \<open>bind_log_context\<close> is stored as the text with every
  character outside \<open>[a-zA-Z0-9_-]\<close> removed, cut to its first 64 characters. Hence, in every
  context that arises from bindings, \<open>get_trace_id\<close> and \<open>get_request_id\<close> return texts of at
  most 64 characters of that alphabet (possibly empty).
\<close>

theorem bind_log_context_normalizes:
  "trace_var (snd (enter_log_context (Some t) request_id s)) = Some (take 64 (filter id_char t)) \<and>
   request_var (snd (enter_log_context trace_id (Some r) s)) = Some (take 64 (filter id_char r)) \<and>
   (bound_context c \<longrightarrow>
      length (get_trace_id U c) \<le> 64 \<and> list_all id_char (get_trace_id U c) \<and>
      length (get_request_id U c) \<le> 64 \<and> list_all id_char (get_request_id U c))"
proof -
  have "id_text (get_trace_id U c) \<and> id_text (get_request_id U c)" if "bound_context c"
    using bound_context_normalized [OF that]
    by (auto simp: get_trace_id_def get_request_id_def id_text_Nil intro!: id_text_strip
        split: option.splits)
  then show ?thesis
    by (simp add: enter_trace_var enter_request_var normalize_id_empty_fallback id_text_def)
qed

theorem bind_log_context_normalizes_witness:
  "bound_context (snd (enter_log_context (Some (ascii ''a b/c!'')) None
      \<lparr>trace_var = None, request_var = None\<rparr>)) \<and>
   get_trace_id ascii_unicode (snd (enter_log_context (Some (ascii ''a b/c!'')) None
      \<lparr>trace_var = None, request_var = None\<rparr>)) = ascii ''abc'' \<and>
   length (get_trace_id ascii_unicode (snd (enter_log_context (Some (ascii ''a b/c!'')) None
      \<lparr>trace_var = None, request_var = None\<rparr>))) \<le> 64"
proof -
  let ?c = "snd (enter_log_context (Some (ascii ''a b/c!'')) None
      \<lparr>trace_var = None, request_var = None\<rparr>)"
  have b: "bound_context ?c" by (intro bound_context.entered bound_context.fresh)
  have g: "get_trace_id ascii_unicode ?c = ascii ''abc''"
    by (simp add: get_trace_id_def enter_log_context_def normalize_id_def id_char_def ascii_def
        strip_def ascii_unicode_def)
  show ?thesis
    using bind_log_context_normalizes [of "[]" None ?c None "[]" ?c ascii_unicode] b g by simp
qed




section \<open>Properties of the fingerprint\<close>










section \<open>Properties of the scheduler engine\<close>

lemma remove_job_after_others:
  "\<forall>j \<in> set W. job_id j \<noteq> job_id x \<Longrightarrow> remove_job (job_id x) (W @ x # xs) = W @ xs"
  by (induction W) auto

lemma clear_loop:
  "\<forall>j \<in> set W. job_id j = config_watcher \<Longrightarrow>
   foldl (\<lambda>store j. if job_id j = config_watcher then store else remove_job (job_id j) store)
     (W @ xs) xs = W @ filter (\<lambda>j. job_id j = config_watcher) xs"
proof (induction xs arbitrary: W)
  case Nil
  show ?case by simp
next
  case (Cons x xs)
  show ?case
  proof (cases "job_id x = config_watcher")
    case True
    with Cons.prems have "\<forall>j \<in> set (W @ [x]). job_id j = config_watcher" by simp
    from Cons.IH [OF this] True show ?thesis by simp
  next
    case False
    with Cons.prems have "\<forall>j \<in> set W. job_id j \<noteq> job_id x" by auto
    then have "remove_job (job_id x) (W @ x # xs) = W @ xs" by (rule remove_job_after_others)
    with Cons.IH [OF Cons.prems] False show ?thesis by simp
  qed
qed

lemma clear_runtime_jobs_filter:
  "clear_runtime_jobs js = filter (\<lambda>j. job_id j = config_watcher) js"
  using clear_loop [of "[]" js] by (simp add: clear_runtime_jobs_def)

lemma filter_add_job:
  "job_id j \<noteq> w \<Longrightarrow> filter (\<lambda>k. job_id k = w) (add_job j js) = filter (\<lambda>k. job_id k = w) js"
  by (induction js) auto

lemma source_job_not_watcher: "job_id (source_job source seconds tz) \<noteq> config_watcher"
  by (simp add: source_job_def config_watcher_def ascii_def)

lemma platform_job_not_watcher: "job_id (platform_job name hour minute tz) \<noteq> config_watcher"
  by (simp add: platform_job_def config_watcher_def ascii_def)

lemma maintenance_job_not_watcher: "job_id (maintenance_job tz) \<noteq> config_watcher"
  by (simp add: maintenance_job_def config_watcher_def ascii_def)

lemma install_sources_watcher:
  "filter (\<lambda>k. job_id k = config_watcher) (snd (install_sources H tz srcs js)) =
   filter (\<lambda>k. job_id k = config_watcher) js"
  by (induction srcs arbitrary: js)
     (auto simp: filter_add_job source_job_not_watcher split: sum.splits option.splits)

lemma install_platforms_watcher:
  "filter (\<lambda>k. job_id k = config_watcher) (snd (install_platforms H tz ps js)) =
   filter (\<lambda>k. job_id k = config_watcher) js"
  by (induction ps arbitrary: js)
     (auto simp: filter_add_job platform_job_not_watcher split: sum.splits option.splits prod.splits)

lemma install_topology_watcher:
  "filter (\<lambda>k. job_id k = config_watcher) (snd (install_topology H rs tz js)) =
   filter (\<lambda>k. job_id k = config_watcher) js"
proof -
  let ?w = "\<lambda>k. job_id k = config_watcher"
  let ?srcs = "sort_key (\<lambda>src. - weight src) (sources rs)"
  obtain e1 js1 where i1: "install_sources H tz ?srcs (clear_runtime_jobs js) = (e1, js1)"
    by (cases "install_sources H tz ?srcs (clear_runtime_jobs js)")
  obtain e2 js2 where i2: "install_platforms H tz (platforms rs) js1 = (e2, js2)"
    by (cases "install_platforms H tz (platforms rs) js1")
  have f1: "filter ?w js1 = filter ?w js"
    using install_sources_watcher [of H tz ?srcs "clear_runtime_jobs js"] i1
    by (simp add: clear_runtime_jobs_filter)
  have f2: "filter ?w js2 = filter ?w js1"
    using install_platforms_watcher [of H tz "platforms rs" js1] i2 by simp
  show ?thesis
    using i1 i2 f1 f2
    by (auto simp: install_topology_def filter_add_job maintenance_job_not_watcher
        split: option.splits)
qed

lemma rules_fingerprint_engine:
  "rules_fingerprint H s = (r, s1) \<Longrightarrow>
   jobs s1 = jobs s \<and> rules s1 = rules s \<and> fingerprint s1 = fingerprint s \<and>
   logged s1 = logged s \<and> last_runs s1 = last_runs s"
  by (auto simp: rules_fingerprint_def Let_def split: prod.splits sum.splits)

lemma load_rules_engine:
  "load_rules H s = (r, s1) \<Longrightarrow>
   jobs s1 = jobs s \<and> rules s1 = rules s \<and> fingerprint s1 = fingerprint s \<and>
   logged s1 = logged s \<and> last_runs s1 = last_runs s"
  by (auto simp: load_rules_def Let_def split: prod.splits sum.splits)

lemma prepare_reload_engine:
  assumes "prepare_reload H force s = (r, s1)"
  shows "jobs s1 = jobs s \<and> rules s1 = rules s \<and> fingerprint s1 = fingerprint s \<and>
         logged s1 = logged s \<and> last_runs s1 = last_runs s"
proof -
  obtain r1 t1 where a: "rules_fingerprint H s = (r1, t1)" by (cases "rules_fingerprint H s")
  obtain r2 t2 where b: "load_rules H t1 = (r2, t2)" by (cases "load_rules H t1")
  from assms a b have "s1 = t1 \<or> s1 = t2"
    by (auto simp: prepare_reload_def split: sum.splits if_splits)
  then show ?thesis
    using rules_fingerprint_engine [OF a] load_rules_engine [OF b] by auto
qed

lemma load_and_schedule_watcher:
  "filter (\<lambda>k. job_id k = config_watcher) (jobs (snd (load_and_schedule H force s))) =
   filter (\<lambda>k. job_id k = config_watcher) (jobs s)"
proof -
  obtain r s1 where p: "prepare_reload H force s = (r, s1)" by (cases "prepare_reload H force s")
  have j: "jobs s1 = jobs s" using prepare_reload_engine [OF p] by simp
  show ?thesis
  proof (cases r)
    case (Inl e)
    with p j show ?thesis by (simp add: load_and_schedule_def)
  next
    case (Inr plan)
    show ?thesis
    proof (cases plan)
      case None
      with p j Inr show ?thesis by (simp add: load_and_schedule_def)
    next
      case (Some t)
      obtain fp rs tz where t: "t = (fp, rs, tz)" by (cases t)
      obtain e js where i: "install_topology H rs tz (jobs s1) = (e, js)"
        by (cases "install_topology H rs tz (jobs s1)")
      have "filter (\<lambda>k. job_id k = config_watcher) js =
            filter (\<lambda>k. job_id k = config_watcher) (jobs s1)"
        using install_topology_watcher [of H rs tz "jobs s1"] i by simp
      with p j Inr Some t i show ?thesis
        by (cases e) (simp_all add: load_and_schedule_def)
    qed
  qed
qed

lemma watch_rules_watcher:
  "filter (\<lambda>k. job_id k = config_watcher) (jobs (watch_rules H s)) =
   filter (\<lambda>k. job_id k = config_watcher) (jobs s)"
proof -
  obtain r s1 where f: "rules_fingerprint H s = (r, s1)" by (cases "rules_fingerprint H s")
  have j: "jobs s1 = jobs s" using rules_fingerprint_engine [OF f] by simp
  let ?s2 = "s1\<lparr>logged := logged s1 @ [RulesChanged]\<rparr>"
  obtain r2 s3 where l: "load_and_schedule H True ?s2 = (r2, s3)"
    by (cases "load_and_schedule H True ?s2")
  have "filter (\<lambda>k. job_id k = config_watcher) (jobs s3) =
        filter (\<lambda>k. job_id k = config_watcher) (jobs s1)"
    using load_and_schedule_watcher [of H True ?s2] l by simp
  with f j l show ?thesis
    by (auto simp: watch_rules_def split: sum.splits)
qed

text \<open>
  C8. \<open>_clear_runtime_jobs\<close> removes every job except the watcher job, and the jobs that
  \<open>_load_and_schedule\<close> installs have other ids. So the jobs with the watcher's id are the
  same before and after every reload, successful or failed, forced or triggered by the
  watcher itself: a watcher job that is installed stays installed.
\<close>

theorem watcher_survives_reload:
  "clear_runtime_jobs js = filter (\<lambda>j. job_id j = config_watcher) js \<and>
   filter (\<lambda>j. job_id j = config_watcher) (jobs (snd (load_and_schedule H force s))) =
     filter (\<lambda>j. job_id j = config_watcher) (jobs s) \<and>
   filter (\<lambda>j. job_id j = config_watcher) (jobs (watch_rules H s)) =
     filter (\<lambda>j. job_id j = config_watcher) (jobs s) \<and>
   (watcher_job \<in> set (jobs s) \<longrightarrow>
      watcher_job \<in> set (jobs (snd (load_and_schedule H force s))) \<and>
      watcher_job \<in> set (jobs (watch_rules H s)))"
proof -
  let ?w = "\<lambda>j. job_id j = config_watcher"
  have w: "job_id watcher_job = config_watcher" by (simp add: watcher_job_def)
  have "watcher_job \<in> set (jobs (snd (load_and_schedule H force s))) \<and>
        watcher_job \<in> set (jobs (watch_rules H s))" if "watcher_job \<in> set (jobs s)"
  proof -
    from that have f: "watcher_job \<in> set (filter ?w (jobs s))" by (simp add: w)
    then have "watcher_job \<in> set (filter ?w (jobs (snd (load_and_schedule H force s))))"
      by (simp only: load_and_schedule_watcher)
    moreover from f have "watcher_job \<in> set (filter ?w (jobs (watch_rules H s)))"
      by (simp only: watch_rules_watcher)
    ultimately show ?thesis by simp
  qed
  then show ?thesis
    by (simp add: clear_runtime_jobs_filter load_and_schedule_watcher watch_rules_watcher)
qed

text \<open>The watcher of the running engine survives a reload that fails while installing jobs.\<close>

theorem watcher_survives_reload_witness:
  "watcher_job \<in> set (jobs (demo_engine [2])) \<and>
   fst (load_and_schedule demo_host True (demo_engine [2])) = Inl ValueError \<and>
   watcher_job \<in> set (jobs (snd (load_and_schedule demo_host True (demo_engine [2])))) \<and>
   watcher_job \<in> set (jobs (watch_rules demo_host (demo_engine [2])))"
proof -
  have a: "watcher_job \<in> set (jobs (demo_engine [2]))"
    by (simp add: demo_engine_def)
  have b: "fst (load_and_schedule demo_host True (demo_engine [2])) = Inl ValueError"
    by code_simp
  show ?thesis
    using watcher_survives_reload [of "[]" demo_host True "demo_engine [2]"] a b by simp
qed

lemma load_and_schedule_failure:
  assumes "load_and_schedule H force s = (Inl e, s')"
  shows "rules s' = rules s \<and> fingerprint s' = fingerprint s \<and> last_runs s' = last_runs s \<and>
         logged s' = logged s"
proof -
  obtain r s1 where p: "prepare_reload H force s = (r, s1)" by (cases "prepare_reload H force s")
  note k = prepare_reload_engine [OF p]
  show ?thesis
  proof (cases r)
    case (Inl x)
    with p assms k show ?thesis by (simp add: load_and_schedule_def)
  next
    case (Inr plan)
    show ?thesis
    proof (cases plan)
      case None
      with p assms Inr show ?thesis by (simp add: load_and_schedule_def)
    next
      case (Some t)
      obtain fp rs tz where t: "t = (fp, rs, tz)" by (cases t)
      obtain x js where i: "install_topology H rs tz (jobs s1) = (x, js)"
        by (cases "install_topology H rs tz (jobs s1)")
      from p assms Inr Some t i k show ?thesis
        by (cases x) (auto simp: load_and_schedule_def)
    qed
  qed
qed

lemma load_and_schedule_early_failure:
  assumes "fst (prepare_reload H force s) = Inl x"
  shows "fst (load_and_schedule H force s) = Inl x \<and>
         jobs (snd (load_and_schedule H force s)) = jobs s"
proof -
  obtain r s1 where p: "prepare_reload H force s = (r, s1)" by (cases "prepare_reload H force s")
  with assms have r: "r = Inl x" by simp
  from p r prepare_reload_engine [OF p] show ?thesis by (simp add: load_and_schedule_def)
qed

lemma watch_rules_read_failure:
  assumes "fst (rules_fingerprint H s) = Inl x"
  shows "jobs (watch_rules H s) = jobs s \<and> rules (watch_rules H s) = rules s \<and>
         fingerprint (watch_rules H s) = fingerprint s \<and>
         logged (watch_rules H s) = logged s @ [WatchFailed x]"
proof -
  obtain r s1 where f: "rules_fingerprint H s = (r, s1)" by (cases "rules_fingerprint H s")
  with assms have "r = Inl x" by simp
  with f rules_fingerprint_engine [OF f] show ?thesis by (simp add: watch_rules_def)
qed

text \<open>
  C1, as amended. When a reload fails while reading the fingerprint, loading and validating
  the rules, or resolving the timezone (the steps before any job is touched), the job store
  is unchanged and the error is raised to the caller. In every failing reload the engine's
  rules and fingerprint stay the previous ones, so the watcher sees the difference again on
  its next tick, and nothing is logged as loaded. When the watcher cannot read the rules
  file, it logs the error and leaves jobs, rules and fingerprint as they are.
\<close>

theorem reload_failure_keeps_state:
  "(load_and_schedule H force s = (Inl e, s') \<longrightarrow>
      rules s' = rules s \<and> fingerprint s' = fingerprint s \<and> last_runs s' = last_runs s) \<and>
   (fst (prepare_reload H force s) = Inl x \<longrightarrow>
      fst (load_and_schedule H force s) = Inl x \<and>
      jobs (snd (load_and_schedule H force s)) = jobs s) \<and>
   (fst (rules_fingerprint H s) = Inl x \<longrightarrow>
      jobs (watch_rules H s) = jobs s \<and> rules (watch_rules H s) = rules s \<and>
      fingerprint (watch_rules H s) = fingerprint s \<and>
      logged (watch_rules H s) = logged s @ [WatchFailed x])"
  using load_and_schedule_failure [of H force s e s']
    load_and_schedule_early_failure [of H force s x]
    watch_rules_read_failure [of H s x]
  by blast

text \<open>A rules file that cannot be decoded: the reload fails and the three jobs stay.\<close>

theorem reload_failure_keeps_state_witness:
  "fst (load_and_schedule demo_host True (demo_engine [3])) = Inl YAMLError \<and>
   fst (prepare_reload demo_host True (demo_engine [3])) = Inl YAMLError \<and>
   jobs (snd (load_and_schedule demo_host True (demo_engine [3]))) = jobs (demo_engine [3]) \<and>
   rules (snd (load_and_schedule demo_host True (demo_engine [3]))) = rules (demo_engine [3]) \<and>
   fingerprint (snd (load_and_schedule demo_host True (demo_engine [3]))) = ascii ''0''"
proof -
  have p: "fst (prepare_reload demo_host True (demo_engine [3])) = Inl YAMLError"
    by code_simp
  have f: "fingerprint (demo_engine [3]) = ascii ''0''"
    by (simp add: demo_engine_def)
  have l: "load_and_schedule demo_host True (demo_engine [3]) =
      (Inl YAMLError, snd (load_and_schedule demo_host True (demo_engine [3])))"
    using reload_failure_keeps_state [of demo_host True "demo_engine [3]" YAMLError
        "demo_engine [3]" YAMLError] p
    by (simp add: prod_eq_iff)
  show ?thesis
    using reload_failure_keeps_state [of demo_host True "demo_engine [3]" YAMLError
        "snd (load_and_schedule demo_host True (demo_engine [3]))" YAMLError] p f l
    by simp
qed

text \<open>
  A rules file whose second source has the interval \<open>30\<close>: the old jobs have been removed and
  the first source installed when the interval of the second is rejected. The reload fails
  and leaves the watcher and that one new job.
\<close>

theorem reload_failure_partial_topology:
  "jobs (demo_engine [2]) =
     [watcher_job, source_job old_feed 7200 (ascii ''Asia/Shanghai''),
      maintenance_job (ascii ''Asia/Shanghai'')] \<and>
   fst (load_and_schedule demo_host True (demo_engine [2])) = Inl ValueError \<and>
   jobs (snd (load_and_schedule demo_host True (demo_engine [2]))) =
     [watcher_job, source_job feed 1800 (ascii ''Asia/Shanghai'')]"
  by code_simp

section \<open>Properties of the pipeline runner\<close>

lemma outbound_trace_headers_cong:
  "trace_var s' = trace_var s \<Longrightarrow> request_var s' = request_var s \<Longrightarrow>
   outbound_trace_headers U s' = outbound_trace_headers U s"
  by (simp add: outbound_trace_headers_def get_trace_id_def get_request_id_def)

text \<open>A call of \<open>post_json\<close> changes the world and appends its attempts, all with the same
  headers, to the history; a call that raises has made every attempt.\<close>

lemma post_json_attempt_effect:
  "post_json_attempt H n req s = (r, s') \<Longrightarrow>
   \<exists>w k. s' = s\<lparr>world := w,
                 sent := sent s @ replicate k (req, outbound_trace_headers (tables H) s)\<rparr> \<and>
          1 \<le> k \<and> k \<le> Suc n \<and> ((\<exists>e. r = Inl e) \<longrightarrow> k = Suc n)"
proof (induction n arbitrary: s)
  case 0
  obtain r0 w0 where h: "http_post H req (outbound_trace_headers (tables H) s) (world s) = (r0, w0)"
    by (cases "http_post H req (outbound_trace_headers (tables H) s) (world s)")
  with 0 have "s' = s\<lparr>world := w0,
      sent := sent s @ replicate 1 (req, outbound_trace_headers (tables H) s)\<rparr>"
    by (simp add: Let_def)
  then show ?case by (intro exI [of _ w0] exI [of _ 1]) simp
next
  case (Suc n)
  let ?h = "outbound_trace_headers (tables H) s"
  obtain r0 w0 where h: "http_post H req ?h (world s) = (r0, w0)"
    by (cases "http_post H req ?h (world s)")
  let ?s1 = "s\<lparr>world := w0, sent := sent s @ [(req, ?h)]\<rparr>"
  show ?case
  proof (cases r0)
    case (Inr v)
    with Suc.prems h have "s' = s\<lparr>world := w0, sent := sent s @ replicate 1 (req, ?h)\<rparr>" "r = Inr v"
      by (simp_all add: Let_def)
    then show ?thesis by (intro exI [of _ w0] exI [of _ 1]) simp
  next
    case (Inl e)
    with Suc.prems h have p: "post_json_attempt H n req ?s1 = (r, s')"
      by (simp add: Let_def)
    have hh: "outbound_trace_headers (tables H) ?s1 = ?h"
      by (rule outbound_trace_headers_cong) simp_all
    from Suc.IH [OF p] obtain w k where
      k: "s' = ?s1\<lparr>world := w, sent := sent ?s1 @ replicate k (req, ?h)\<rparr>"
        "1 \<le> k" "k \<le> Suc n" "(\<exists>e. r = Inl e) \<longrightarrow> k = Suc n"
      unfolding hh by blast
    from k(1) have "s' = s\<lparr>world := w, sent := sent s @ replicate (Suc k) (req, ?h)\<rparr>"
      by simp
    with k(2-4) show ?thesis by (intro exI [of _ w] exI [of _ "Suc k"]) simp
  qed
qed

lemma post_json_effect:
  assumes "post_json H req s = (r, s')"
  shows "\<exists>w k. s' = s\<lparr>world := w,
                 sent := sent s @ replicate k (req, outbound_trace_headers (tables H) s)\<rparr> \<and>
          1 \<le> k \<and> k \<le> 3 \<and> ((\<exists>e. r = Inl e) \<longrightarrow> k = 3)"
  using post_json_attempt_effect [of H 2 req s r s'] assms
  by (simp add: post_json_def numeral_3_eq_3)

lemma post_json_fields:
  assumes "post_json H req s = (r, s')"
  shows "trace_var s' = trace_var s" "request_var s' = request_var s" "rules s' = rules s"
    "logged s' = logged s" "last_runs s' = last_runs s" "jobs s' = jobs s"
    "fingerprint s' = fingerprint s"
  using post_json_effect [OF assms] by auto

lemma post_json_failure_sent:
  assumes "post_json H req s = (Inl e, s')"
  shows "sent s' = sent s @ replicate 3 (req, outbound_trace_headers (tables H) s)"
  using post_json_effect [OF assms] by auto

lemma locked_block_scan_failure:
  assumes "post_json H (Scan source) s = (Inl exc, s1)"
  shows "locked_block H source c s =
     (c\<lparr>c_failed := c_failed c + 1\<rparr>,
      s1\<lparr>logged := logged s1 @ [SourceFailed (sc_id source) exc]\<rparr>)"
  using assms by (simp add: locked_block_def)

text \<open>
  C3. When the scan call raises (after its three attempts), \<open>run_source\<close> returns the summary
  with \<open>scanned\<close> 0, \<open>processed\<close> 0, \<open>duplicated\<close> 0 and \<open>failed\<close> 1, with the two clock readings
  as \<open>started_at\<close> and \<open>ended_at\<close>; the only requests it has sent are the three scan attempts,
  so no duplicate check, archive or remember call is made; and the summary is stored in
  \<open>last_runs\<close> under the source id.
\<close>

theorem run_source_scan_failure:
  assumes "utcnow H (world s) = (started, w0)"
    and "post_json H (Scan source)
           (s\<lparr>world := w0, logged := logged s @ [HeartbeatStart (sc_id source)]\<rparr>) = (Inl exc, s1)"
    and "utcnow H (world s1) = (ended, w2)"
  shows "fst (run_source H source s) =
           model_dump \<lparr> source_id = sc_id source, scanned = 0, processed = 0, duplicated = 0,
                        failed = 1, started_at = started, ended_at = ended \<rparr> \<and>
         map_of (fst (run_source H source s)) (ascii ''scanned'') = Some (JInt 0) \<and>
         map_of (fst (run_source H source s)) (ascii ''failed'') = Some (JInt 1) \<and>
         map_of (fst (run_source H source s)) (ascii ''started_at'') = Some (JDatetime started) \<and>
         map_of (fst (run_source H source s)) (ascii ''ended_at'') = Some (JDatetime ended) \<and>
         sent (snd (run_source H source s)) =
           sent s @ replicate 3 (Scan source, outbound_trace_headers (tables H) s) \<and>
         last_runs (snd (run_source H source s)) (sc_id source) = Some (fst (run_source H source s)) \<and>
         logged (snd (run_source H source s)) =
           logged s @ [HeartbeatStart (sc_id source), SourceFailed (sc_id source) exc,
                       HeartbeatDone (sc_id source) 0 0 0 0 1]"
proof -
  let ?s0 = "s\<lparr>world := w0, logged := logged s @ [HeartbeatStart (sc_id source)]\<rparr>"
  let ?c0 = "\<lparr> c_scanned = 0, c_processed = 0, c_duplicated = 0, c_filtered = 0, c_failed = 0 \<rparr>"
  have lb: "locked_block H source ?c0 ?s0 =
      (?c0\<lparr>c_failed := c_failed ?c0 + 1\<rparr>,
       s1\<lparr>logged := logged s1 @ [SourceFailed (sc_id source) exc]\<rparr>)"
    using assms(2) by (rule locked_block_scan_failure)
  have h: "outbound_trace_headers (tables H) ?s0 = outbound_trace_headers (tables H) s"
    by (rule outbound_trace_headers_cong) simp_all
  have sn: "sent s1 = sent s @ replicate 3 (Scan source, outbound_trace_headers (tables H) s)"
    using post_json_failure_sent [OF assms(2)] h by simp
  have lg: "logged s1 = logged s @ [HeartbeatStart (sc_id source)]"
    using post_json_fields(4) [OF assms(2)] by simp
  have lr: "last_runs s1 = last_runs s"
    using post_json_fields(5) [OF assms(2)] by simp
  have rs: "run_source H source s =
      (model_dump \<lparr> source_id = sc_id source, scanned = 0, processed = 0, duplicated = 0,
                    failed = 1, started_at = started, ended_at = ended \<rparr>,
       s1\<lparr>world := w2,
          last_runs := (last_runs s1)(sc_id source \<mapsto>
            model_dump \<lparr> source_id = sc_id source, scanned = 0, processed = 0, duplicated = 0,
                         failed = 1, started_at = started, ended_at = ended \<rparr>),
          logged := logged s1 @ [SourceFailed (sc_id source) exc,
                                 HeartbeatDone (sc_id source) 0 0 0 0 1]\<rparr>)"
    using assms(1,3) lb by (simp add: run_source_def Let_def)
  show ?thesis
    unfolding rs by (simp add: sn lg) (simp add: model_dump_def ascii_def)
qed

text \<open>The scan service of the concrete host does not know the source \<open>old\<close>.\<close>

theorem run_source_scan_failure_witness:
  "fst (run_source demo_host old_feed (demo_engine [1])) =
     model_dump \<lparr> source_id = ascii ''old'', scanned = 0, processed = 0, duplicated = 0,
                  failed = 1, started_at = 1000, ended_at = 1001 \<rparr> \<and>
   sent (snd (run_source demo_host old_feed (demo_engine [1]))) = replicate 3 (Scan old_feed, []) \<and>
   last_runs (snd (run_source demo_host old_feed (demo_engine [1]))) (ascii ''old'') =
     Some (fst (run_source demo_host old_feed (demo_engine [1])))"
proof -
  let ?E = "demo_engine [1]"
  let ?w0 = "snd (utcnow demo_host (world ?E))"
  let ?s0 = "?E\<lparr>world := ?w0, logged := logged ?E @ [HeartbeatStart (sc_id old_feed)]\<rparr>"
  let ?s1 = "snd (post_json demo_host (Scan old_feed) ?s0)"
  have a1: "utcnow demo_host (world ?E) = (1000, ?w0)"
    by (simp add: prod_eq_iff demo_host_def demo_engine_def new_engine_def)
  have "fst (post_json demo_host (Scan old_feed) ?s0) = Inl HTTPError"
    by code_simp
  then have a2: "post_json demo_host (Scan old_feed) ?s0 = (Inl HTTPError, ?s1)"
    by (simp add: prod_eq_iff)
  have "fst (utcnow demo_host (world ?s1)) = 1001"
    by code_simp
  then have a3: "utcnow demo_host (world ?s1) = (1001, snd (utcnow demo_host (world ?s1)))"
    by (simp add: prod_eq_iff)
  have h: "outbound_trace_headers (tables demo_host) ?E = []"
    by (simp add: outbound_trace_headers_def get_trace_id_def get_request_id_def strip_def
        demo_engine_def new_engine_def)
  have e: "sent ?E = []" "sc_id old_feed = ascii ''old''"
    by (simp_all add: demo_engine_def new_engine_def old_feed_def)
  show ?thesis
    using run_source_scan_failure [OF a1 a2 a3] h e by simp
qed

lemma run_item_unfold:
  "run_item H source item (c, s) =
     (case item_body H source item c
             (s\<lparr>trace_var := Some (normalize_id (item_trace_id source item) [])\<rparr>) of
        (Inr c1, s1) \<Rightarrow> (c1, s1\<lparr>trace_var := trace_var s\<rparr>)
      | (Inl item_exc, s1) \<Rightarrow>
          (c\<lparr>c_failed := c_failed c + 1\<rparr>,
           s1\<lparr>trace_var := trace_var s, logged := logged s1 @ [ItemFailed (sc_id source) item_exc]\<rparr>))"
  by (simp add: run_item_def bind_log_context_def enter_log_context_def exit_log_context_def
      split: prod.splits sum.splits)

lemma item_body_observed:
  assumes "item_observed H source item k s s'"
  shows "item_body H source item c
           (s\<lparr>trace_var := Some (normalize_id (item_trace_id source item) [])\<rparr>) =
         (Inr (count_outcome k c), s')"
proof -
  let ?s0 = "s\<lparr>trace_var := Some (normalize_id (item_trace_id source item) [])\<rparr>"
  obtain r1 s1 where chk: "post_json H (CheckDuplicate (url_hash item)) ?s0 = (r1, s1)"
    by (cases "post_json H (CheckDuplicate (url_hash item)) ?s0")
  have rs: "rules s1 = rules s" using post_json_fields(3) [OF chk] by simp
  show ?thesis
  proof (cases k)
    case Duplicated
    with assms chk show ?thesis
      by (simp add: item_observed_def item_body_def count_outcome_def)
  next
    case Filtered
    with assms chk show ?thesis
      by (simp add: item_observed_def item_body_def count_outcome_def)
  next
    case Processed
    with assms chk rs show ?thesis
      by (auto simp: item_observed_def item_body_def count_outcome_def Let_def
          split: prod.splits sum.splits)
  qed
qed

text \<open>One turn of the loop for an item with an observed outcome, whatever trace id is
  active around it: the counter of the outcome is incremented and the trace id is as before.\<close>

lemma run_item_observed:
  assumes "item_observed H source item k s s'"
  shows "run_item H source item (c, s\<lparr>trace_var := t\<rparr>) = (count_outcome k c, s'\<lparr>trace_var := t\<rparr>)"
  using item_body_observed [OF assms, of c]
  by (simp add: run_item_unfold)

lemma three_outcomes:
  assumes "distinct [k1, k2, k3]"
  shows "count_outcome k3 (count_outcome k2 (count_outcome k1
           \<lparr> c_scanned = 3, c_processed = 0, c_duplicated = 0, c_filtered = 0, c_failed = 0 \<rparr>)) =
         \<lparr> c_scanned = 3, c_processed = 1, c_duplicated = 1, c_filtered = 1, c_failed = 0 \<rparr>"
  using assms by (cases k1; cases k2; cases k3) (simp_all add: count_outcome_def)

lemma three_items_run:
  assumes clock: "utcnow H (world s) = (started, w0)"
    and scan: "post_json H (Scan source)
           (s\<lparr>world := w0, logged := logged s @ [HeartbeatStart (sc_id source)]\<rparr>) =
           (Inr (ScanResponse [x1, x2, x3]), s1)"
    and o1: "item_observed H source x1 k1 s1 s2"
    and o2: "item_observed H source x2 k2 s2 s3"
    and o3: "item_observed H source x3 k3 s3 s4"
    and kinds: "distinct [k1, k2, k3]"
    and clock2: "utcnow H (world s4) = (ended, w5)"
  shows "run_source H source s =
     (model_dump \<lparr> source_id = sc_id source, scanned = 3, processed = 1, duplicated = 1,
                   failed = 0, started_at = started, ended_at = ended \<rparr>,
      s4\<lparr>trace_var := trace_var s1, world := w5,
         last_runs := (last_runs s4)(sc_id source \<mapsto>
           model_dump \<lparr> source_id = sc_id source, scanned = 3, processed = 1, duplicated = 1,
                        failed = 0, started_at = started, ended_at = ended \<rparr>),
         logged := logged s4 @ [HeartbeatDone (sc_id source) 3 1 1 1 0]\<rparr>)"
proof -
  let ?c0 = "\<lparr> c_scanned = 0, c_processed = 0, c_duplicated = 0, c_filtered = 0, c_failed = 0 \<rparr>"
  let ?c3 = "\<lparr> c_scanned = 3, c_processed = 0, c_duplicated = 0, c_filtered = 0, c_failed = 0 \<rparr>"
  let ?t = "trace_var s1"
  have r1: "run_item H source x1 (?c3, s1) = (count_outcome k1 ?c3, s2\<lparr>trace_var := ?t\<rparr>)"
    using run_item_observed [OF o1, of ?c3 ?t] by simp
  have r2: "run_item H source x2 (count_outcome k1 ?c3, s2\<lparr>trace_var := ?t\<rparr>) =
      (count_outcome k2 (count_outcome k1 ?c3), s3\<lparr>trace_var := ?t\<rparr>)"
    by (rule run_item_observed [OF o2])
  have r3: "run_item H source x3 (count_outcome k2 (count_outcome k1 ?c3), s3\<lparr>trace_var := ?t\<rparr>) =
      (count_outcome k3 (count_outcome k2 (count_outcome k1 ?c3)), s4\<lparr>trace_var := ?t\<rparr>)"
    by (rule run_item_observed [OF o3])
  have items: "run_items H source [x1, x2, x3] (?c3, s1) =
      (\<lparr> c_scanned = 3, c_processed = 1, c_duplicated = 1, c_filtered = 1, c_failed = 0 \<rparr>,
       s4\<lparr>trace_var := ?t\<rparr>)"
    by (simp add: run_items_def r1 r2 r3 three_outcomes [OF kinds])
  have lb: "locked_block H source ?c0
      (s\<lparr>world := w0, logged := logged s @ [HeartbeatStart (sc_id source)]\<rparr>) =
      (\<lparr> c_scanned = 3, c_processed = 1, c_duplicated = 1, c_filtered = 1, c_failed = 0 \<rparr>,
       s4\<lparr>trace_var := ?t\<rparr>)"
    using scan items by (simp add: locked_block_def)
  show ?thesis
    using clock clock2 lb by (simp add: run_source_def Let_def)
qed

text \<open>The calls of the concrete host, which answer at the first attempt.\<close>

lemma demo_scan_feed:
  "post_json demo_host (Scan feed) s =
     (Inr (ScanResponse [item_a, item_b, item_c]),
      s\<lparr>world := world s,
        sent := sent s @ [(Scan feed, outbound_trace_headers (tables demo_host) s)]\<rparr>)"
  by (simp add: post_json_def numeral_2_eq_2 demo_host_def demo_http_def feed_def Let_def)

lemma demo_check:
  "post_json demo_host (CheckDuplicate h) s =
     (Inr (DuplicateCheckResponse (h \<in> set (remembered (world s)))),
      s\<lparr>world := world s,
        sent := sent s @ [(CheckDuplicate h, outbound_trace_headers (tables demo_host) s)]\<rparr>)"
  by (simp add: post_json_def numeral_2_eq_2 demo_host_def demo_http_def Let_def)

lemma demo_archive:
  "post_json demo_host (Archive pack) s =
     (Inr (ArchiveResponse (ascii ''doc://'' @ cp_url_hash pack) (ascii ''ok'')),
      s\<lparr>world := world s,
        sent := sent s @ [(Archive pack, outbound_trace_headers (tables demo_host) s)]\<rparr>)"
  by (simp add: post_json_def numeral_2_eq_2 demo_host_def demo_http_def Let_def)

lemma demo_remember:
  "post_json demo_host (Remember r) s =
     (Inr StatusOk,
      s\<lparr>world := (world s)\<lparr>remembered := rm_url_hash r # remembered (world s)\<rparr>,
        sent := sent s @ [(Remember r, outbound_trace_headers (tables demo_host) s)]\<rparr>)"
  by (simp add: post_json_def numeral_2_eq_2 demo_host_def demo_http_def Let_def)

lemma demo_low_value_b: "\<not> is_high_value_signal (tables demo_host) item_b"
  by (simp add: is_high_value_signal_def HIGH_VALUE_HINTS_def item_b_def ascii_def demo_host_def
      ascii_unicode_def ascii_lower_def)

lemma demo_high_value_c: "is_high_value_signal (tables demo_host) item_c"
  by (simp add: is_high_value_signal_def HIGH_VALUE_HINTS_def item_c_def ascii_def demo_host_def
      ascii_unicode_def ascii_lower_def)

lemma demo_observed_duplicate:
  assumes "url_hash item \<in> set (remembered (world s))"
  shows "item_observed demo_host source item Duplicated s
           (snd (post_json demo_host (CheckDuplicate (url_hash item))
                   (s\<lparr>trace_var := Some (normalize_id (item_trace_id source item) [])\<rparr>)))"
  using assms by (simp add: item_observed_def demo_check)

lemma demo_observed_filtered:
  assumes "url_hash item \<notin> set (remembered (world s))"
    and "\<not> is_high_value_signal (tables demo_host) item"
  shows "item_observed demo_host source item Filtered s
           (snd (post_json demo_host (CheckDuplicate (url_hash item))
                   (s\<lparr>trace_var := Some (normalize_id (item_trace_id source item) [])\<rparr>)))"
  using assms by (simp add: item_observed_def demo_check)

lemma demo_observed_processed:
  assumes "url_hash item \<notin> set (remembered (world s))"
    and "is_high_value_signal (tables demo_host) item"
  shows "\<exists>s'. item_observed demo_host source item Processed s s' \<and>
              world s' = (world s)\<lparr>remembered := url_hash item # remembered (world s)\<rparr>"
  using assms
  by (simp add: item_observed_def Let_def demo_check demo_archive demo_remember
      build_remember_request_def)

lemma demo_feed_run:
  "\<exists>w0 s1 s2 s3 s4 w5.
     utcnow demo_host (world (demo_engine [1])) = (1000, w0) \<and>
     post_json demo_host (Scan feed)
       ((demo_engine [1])\<lparr>world := w0,
          logged := logged (demo_engine [1]) @ [HeartbeatStart (sc_id feed)]\<rparr>) =
       (Inr (ScanResponse [item_a, item_b, item_c]), s1) \<and>
     item_observed demo_host feed item_a Duplicated s1 s2 \<and>
     item_observed demo_host feed item_b Filtered s2 s3 \<and>
     item_observed demo_host feed item_c Processed s3 s4 \<and>
     utcnow demo_host (world s4) = (1001, w5)"
proof -
  let ?E = "demo_engine [1]"
  let ?W = "\<lparr>rules_file = [1], clock = 1001, remembered = [ascii ''aaaaaaaaaaaa'']\<rparr>"
  let ?s0 = "?E\<lparr>world := ?W, logged := logged ?E @ [HeartbeatStart (sc_id feed)]\<rparr>"
  let ?s1 = "snd (post_json demo_host (Scan feed) ?s0)"
  let ?s2 = "snd (post_json demo_host (CheckDuplicate (url_hash item_a))
               (?s1\<lparr>trace_var := Some (normalize_id (item_trace_id feed item_a) [])\<rparr>))"
  let ?s3 = "snd (post_json demo_host (CheckDuplicate (url_hash item_b))
               (?s2\<lparr>trace_var := Some (normalize_id (item_trace_id feed item_b) [])\<rparr>))"
  have a1: "utcnow demo_host (world ?E) = (1000, ?W)"
    by (simp add: demo_host_def demo_engine_def new_engine_def)
  have a2: "post_json demo_host (Scan feed) ?s0 = (Inr (ScanResponse [item_a, item_b, item_c]), ?s1)"
    by (simp add: demo_scan_feed)
  have w1: "world ?s1 = ?W" by (simp add: demo_scan_feed)
  have w2: "world ?s2 = ?W" by (simp add: demo_check demo_scan_feed)
  have w3: "world ?s3 = ?W" by (simp add: demo_check demo_scan_feed)
  have "url_hash item_a \<in> set (remembered (world ?s1))"
    unfolding w1 by (simp add: item_a_def)
  then have oa: "item_observed demo_host feed item_a Duplicated ?s1 ?s2"
    by (rule demo_observed_duplicate)
  have "url_hash item_b \<notin> set (remembered (world ?s2))"
    unfolding w2 by (simp add: item_b_def ascii_def)
  then have ob: "item_observed demo_host feed item_b Filtered ?s2 ?s3"
    using demo_low_value_b by (rule demo_observed_filtered)
  have "url_hash item_c \<notin> set (remembered (world ?s3))"
    unfolding w3 by (simp add: item_c_def ascii_def)
  from demo_observed_processed [OF this demo_high_value_c, of feed]
  obtain s4 where oc: "item_observed demo_host feed item_c Processed ?s3 s4"
    and w4: "world s4 = (world ?s3)\<lparr>remembered := url_hash item_c # remembered (world ?s3)\<rparr>"
    by blast
  have a3: "utcnow demo_host (world s4) = (1001, snd (utcnow demo_host (world s4)))"
    unfolding w4 w3 by (simp add: demo_host_def)
  from a1 a2 oa ob oc a3 show ?thesis by blast
qed

lemma model_dump_keys:
  "map_of (model_dump r) (ascii ''scanned'') = Some (JInt (scanned r))"
  "map_of (model_dump r) (ascii ''processed'') = Some (JInt (processed r))"
  "map_of (model_dump r) (ascii ''duplicated'') = Some (JInt (duplicated r))"
  "map_of (model_dump r) (ascii ''failed'') = Some (JInt (failed r))"
  "map_of (model_dump r) (ascii ''filtered'') = None"
  by (simp_all add: model_dump_def ascii_def)

text \<open>
  C2, as amended. The scan returns exactly three items, in any order: for one the duplicate
  check answers that it is a duplicate; one is not a duplicate and fails the value filter;
  one is not a duplicate, passes the filter, and is archived and remembered. Then the
  counters of the run end at scanned 3, processed 1, duplicated 1, filtered 1, failed 0, as
  the final log line of \<open>run_source\<close> reports them. The summary that \<open>run_source\<close> returns and
  stores in \<open>last_runs\<close> carries scanned 3, processed 1, duplicated 1 and failed 0; it has no
  entry for the filtered count.
\<close>

theorem run_source_three_items:
  assumes "utcnow H (world s) = (started, w0)"
    and "post_json H (Scan source)
           (s\<lparr>world := w0, logged := logged s @ [HeartbeatStart (sc_id source)]\<rparr>) =
           (Inr (ScanResponse [x1, x2, x3]), s1)"
    and "item_observed H source x1 k1 s1 s2"
    and "item_observed H source x2 k2 s2 s3"
    and "item_observed H source x3 k3 s3 s4"
    and "distinct [k1, k2, k3]"
    and "utcnow H (world s4) = (ended, w5)"
  shows "fst (run_source H source s) =
           model_dump \<lparr> source_id = sc_id source, scanned = 3, processed = 1, duplicated = 1,
                        failed = 0, started_at = started, ended_at = ended \<rparr> \<and>
         last (logged (snd (run_source H source s))) = HeartbeatDone (sc_id source) 3 1 1 1 0 \<and>
         map_of (fst (run_source H source s)) (ascii ''scanned'') = Some (JInt 3) \<and>
         map_of (fst (run_source H source s)) (ascii ''processed'') = Some (JInt 1) \<and>
         map_of (fst (run_source H source s)) (ascii ''duplicated'') = Some (JInt 1) \<and>
         map_of (fst (run_source H source s)) (ascii ''failed'') = Some (JInt 0) \<and>
         map_of (fst (run_source H source s)) (ascii ''filtered'') = None \<and>
         last_runs (snd (run_source H source s)) (sc_id source) = Some (fst (run_source H source s))"
  unfolding three_items_run [OF assms]
  by (simp add: model_dump_keys)

text \<open>The feed of the concrete host: item a is remembered already, item b is a short text
  without image or keyword, item c has an image and a keyword.\<close>

theorem run_source_three_items_witness:
  "fst (run_source demo_host feed (demo_engine [1])) =
     model_dump \<lparr> source_id = ascii ''feed'', scanned = 3, processed = 1, duplicated = 1,
                  failed = 0, started_at = 1000, ended_at = 1001 \<rparr> \<and>
   last (logged (snd (run_source demo_host feed (demo_engine [1])))) =
     HeartbeatDone (ascii ''feed'') 3 1 1 1 0"
proof -
  from demo_feed_run obtain w0 s1 s2 s3 s4 w5 where
    a1: "utcnow demo_host (world (demo_engine [1])) = (1000, w0)" and
    a2: "post_json demo_host (Scan feed)
       ((demo_engine [1])\<lparr>world := w0,
          logged := logged (demo_engine [1]) @ [HeartbeatStart (sc_id feed)]\<rparr>) =
       (Inr (ScanResponse [item_a, item_b, item_c]), s1)" and
    oa: "item_observed demo_host feed item_a Duplicated s1 s2" and
    ob: "item_observed demo_host feed item_b Filtered s2 s3" and
    oc: "item_observed demo_host feed item_c Processed s3 s4" and
    a3: "utcnow demo_host (world s4) = (1001, w5)"
    by blast
  have d: "distinct [Duplicated, Filtered, Processed]" by simp
  have e: "sc_id feed = ascii ''feed''" by (simp add: feed_def)
  show ?thesis
    using run_source_three_items [OF a1 a2 oa ob oc d a3] e by simp
qed

text \<open>The summary returned for that run has no entry for the filtered count.\<close>

theorem run_source_summary_without_filtered:
  "fst (run_source demo_host feed (demo_engine [1])) =
     [(ascii ''source_id'', JStr (ascii ''feed'')), (ascii ''scanned'', JInt 3),
      (ascii ''processed'', JInt 1), (ascii ''duplicated'', JInt 1), (ascii ''failed'', JInt 0),
      (ascii ''started_at'', JDatetime 1000), (ascii ''ended_at'', JDatetime 1001)] \<and>
   map_of (fst (run_source demo_host feed (demo_engine [1]))) (ascii ''filtered'') = None"
proof -
  from demo_feed_run obtain w0 s1 s2 s3 s4 w5 where
    a1: "utcnow demo_host (world (demo_engine [1])) = (1000, w0)" and
    a2: "post_json demo_host (Scan feed)
       ((demo_engine [1])\<lparr>world := w0,
          logged := logged (demo_engine [1]) @ [HeartbeatStart (sc_id feed)]\<rparr>) =
       (Inr (ScanResponse [item_a, item_b, item_c]), s1)" and
    oa: "item_observed demo_host feed item_a Duplicated s1 s2" and
    ob: "item_observed demo_host feed item_b Filtered s2 s3" and
    oc: "item_observed demo_host feed item_c Processed s3 s4" and
    a3: "utcnow demo_host (world s4) = (1001, w5)"
    by blast
  have d: "distinct [Duplicated, Filtered, Processed]" by simp
  have "fst (run_source demo_host feed (demo_engine [1])) =
     model_dump \<lparr> source_id = sc_id feed, scanned = 3, processed = 1, duplicated = 1,
                  failed = 0, started_at = 1000, ended_at = 1001 \<rparr>"
    unfolding three_items_run [OF a1 a2 oa ob oc d a3] by simp
  then show ?thesis
    by (simp add: model_dump_def feed_def ascii_def)
qed

lemma item_body_archive_sent:
  assumes chk: "post_json H (CheckDuplicate (url_hash item)) s = (Inr (DuplicateCheckResponse False), s1)"
    and hv: "is_high_value_signal (tables H) item"
  shows "\<exists>k1 k2 h1 h2 rest.
     sent (snd (item_body H source item c s)) =
       sent s @ replicate k1 (CheckDuplicate (url_hash item), h1) @
       replicate k2 (Archive (build_content_pack (tables H) (rules s) source item
                                (item_trace_id source item)), h2) @ rest \<and>
     1 \<le> k2 \<and> (\<forall>q \<in> set rest. \<exists>r h. q = (Remember r, h))"
proof -
  let ?pack = "build_content_pack (tables H) (rules s) source item (item_trace_id source item)"
  from post_json_effect [OF chk] obtain w1 k1 where
    s1: "s1 = s\<lparr>world := w1, sent := sent s @ replicate k1
           (CheckDuplicate (url_hash item), outbound_trace_headers (tables H) s)\<rparr>"
    by blast
  have rs: "rules s1 = rules s" using s1 by simp
  obtain r2 s2 where arc: "post_json H (Archive ?pack) s1 = (r2, s2)"
    by (cases "post_json H (Archive ?pack) s1")
  from post_json_effect [OF arc] obtain w2 k2 where
    s2: "s2 = s1\<lparr>world := w2, sent := sent s1 @ replicate k2
           (Archive ?pack, outbound_trace_headers (tables H) s1)\<rparr>" and k2: "1 \<le> k2"
    by blast
  have sent2: "sent s2 = sent s @ replicate k1
        (CheckDuplicate (url_hash item), outbound_trace_headers (tables H) s) @
      replicate k2 (Archive ?pack, outbound_trace_headers (tables H) s1) @ []"
    using s1 s2 by simp
  show ?thesis
  proof (cases r2)
    case (Inl e)
    with chk hv arc rs have "snd (item_body H source item c s) = s2"
      by (simp add: item_body_def)
    with sent2 k2 show ?thesis by (metis empty_iff list.set(1))
  next
    case (Inr archive_result)
    let ?req = "Remember (build_remember_request source item archive_result)"
    obtain r3 s3 where rem: "post_json H ?req s2 = (r3, s3)"
      by (cases "post_json H ?req s2")
    from post_json_effect [OF rem] obtain w3 k3 where
      s3: "s3 = s2\<lparr>world := w3, sent := sent s2 @ replicate k3
             (?req, outbound_trace_headers (tables H) s2)\<rparr>"
      by blast
    from chk hv arc rs Inr rem have fin: "snd (item_body H source item c s) = s3"
      by (simp add: item_body_def split: sum.splits)
    have "sent s3 = sent s @ replicate k1
          (CheckDuplicate (url_hash item), outbound_trace_headers (tables H) s) @
        replicate k2 (Archive ?pack, outbound_trace_headers (tables H) s1) @
        replicate k3 (?req, outbound_trace_headers (tables H) s2)"
      using sent2 s3 by simp
    moreover have "\<forall>q \<in> set (replicate k3 (?req, outbound_trace_headers (tables H) s2)).
        \<exists>r h. q = (Remember r, h)"
      by auto
    ultimately show ?thesis using fin k2 by metis
  qed
qed

lemma channels_of_pack:
  "channels (build_content_pack U rs source item trace_id) =
     (case rs of
        None \<Rightarrow> [ascii ''twitter'', ascii ''wechat_blog'']
      | Some r \<Rightarrow>
          if filter (\<lambda>(name, policy). enabled policy) (platforms r) = []
          then [ascii ''twitter'', ascii ''wechat_blog'']
          else map fst (filter (\<lambda>(name, policy). enabled policy) (platforms r)))"
  by (simp add: build_content_pack_def platform_strategy_keys_def split: option.splits)

text \<open>
  C9. For an item that the duplicate check reports as new and that passes the value filter,
  \<open>run_source\<close> sends the archive service a content pack, and every archive request it sends
  for the item carries that pack. The \<open>channels\<close> of the pack are the names of the enabled
  platform policies of the current rules, in the order of the rules; when no rules are
  loaded or no policy is enabled, they are the default list \<open>twitter\<close>, \<open>wechat_blog\<close>.
\<close>

theorem content_pack_channels:
  assumes "post_json H (CheckDuplicate (url_hash item)) s = (Inr (DuplicateCheckResponse False), s1)"
    and "is_high_value_signal (tables H) item"
  shows "(\<exists>hdrs. (Archive (build_content_pack (tables H) (rules s) source item
                      (item_trace_id source item)), hdrs)
            \<in> set (sent (snd (item_body H source item c s)))) \<and>
         (\<forall>pack hdrs. (Archive pack, hdrs) \<in> set (sent (snd (item_body H source item c s))) \<longrightarrow>
            (Archive pack, hdrs) \<in> set (sent s) \<or>
            pack = build_content_pack (tables H) (rules s) source item (item_trace_id source item)) \<and>
         channels (build_content_pack (tables H) (rules s) source item (item_trace_id source item)) =
           (case rules s of
              None \<Rightarrow> [ascii ''twitter'', ascii ''wechat_blog'']
            | Some r \<Rightarrow>
                if filter (\<lambda>(name, policy). enabled policy) (platforms r) = []
                then [ascii ''twitter'', ascii ''wechat_blog'']
                else map fst (filter (\<lambda>(name, policy). enabled policy) (platforms r)))"
proof -
  let ?pack = "build_content_pack (tables H) (rules s) source item (item_trace_id source item)"
  from item_body_archive_sent [OF assms, of source c] obtain k1 k2 h1 h2 rest where
    snt: "sent (snd (item_body H source item c s)) =
       sent s @ replicate k1 (CheckDuplicate (url_hash item), h1) @
       replicate k2 (Archive ?pack, h2) @ rest"
    and k2: "1 \<le> k2" and rest: "\<forall>q \<in> set rest. \<exists>r h. q = (Remember r, h)"
    by blast
  have "(Archive ?pack, h2) \<in> set (replicate k2 (Archive ?pack, h2))" using k2 by simp
  then have a: "(Archive ?pack, h2) \<in> set (sent (snd (item_body H source item c s)))"
    unfolding snt by simp
  have b: "(Archive pack, hdrs) \<in> set (sent s) \<or> pack = ?pack"
    if "(Archive pack, hdrs) \<in> set (sent (snd (item_body H source item c s)))" for pack hdrs
    using that rest unfolding snt by auto
  show ?thesis
    using a b by (simp only: channels_of_pack) blast
qed

text \<open>Item c in the running engine of the concrete host, whose rules enable \<open>twitter\<close> and
  \<open>xhs\<close> and disable \<open>wechat_blog\<close>.\<close>

theorem content_pack_channels_witness:
  "channels (build_content_pack (tables demo_host) (rules (demo_engine [1])) feed item_c
      (item_trace_id feed item_c)) = [ascii ''twitter'', ascii ''xhs''] \<and>
   (\<exists>hdrs. (Archive (build_content_pack (tables demo_host) (rules (demo_engine [1])) feed item_c
                (item_trace_id feed item_c)), hdrs)
      \<in> set (sent (snd (item_body demo_host feed item_c
            \<lparr> c_scanned = 1, c_processed = 0, c_duplicated = 0, c_filtered = 0, c_failed = 0 \<rparr>
            (demo_engine [1])))))"
proof -
  let ?E = "demo_engine [1]"
  have n: "url_hash item_c \<notin> set (remembered (world ?E))"
    by (simp add: demo_engine_def new_engine_def item_c_def ascii_def)
  have chk: "post_json demo_host (CheckDuplicate (url_hash item_c)) ?E =
      (Inr (DuplicateCheckResponse False),
       snd (post_json demo_host (CheckDuplicate (url_hash item_c)) ?E))"
    using n by (simp add: demo_check)
  have r: "(case rules ?E of
              None \<Rightarrow> [ascii ''twitter'', ascii ''wechat_blog'']
            | Some r \<Rightarrow>
                if filter (\<lambda>(name, policy). enabled policy) (platforms r) = []
                then [ascii ''twitter'', ascii ''wechat_blog'']
                else map fst (filter (\<lambda>(name, policy). enabled policy) (platforms r))) =
           [ascii ''twitter'', ascii ''xhs'']"
    by (simp add: demo_engine_def new_engine_def demo_rules_def demo_policy_def)
  show ?thesis
    using content_pack_channels [OF chk demo_high_value_c, of feed
        "\<lparr> c_scanned = 1, c_processed = 0, c_duplicated = 0, c_filtered = 0, c_failed = 0 \<rparr>"]
    unfolding r by blast
qed

section \<open>Properties of the run lock\<close>

lemma count_list_update:
  "i < length xs \<Longrightarrow>
   length (filter P (xs[i := y])) + (if P (xs ! i) then 1 else 0) =
   length (filter P xs) + (if P y then 1 else 0)"
proof (induction xs arbitrary: i)
  case Nil
  then show ?case by simp
next
  case (Cons x xs)
  show ?case
  proof (cases i)
    case 0
    then show ?thesis by simp
  next
    case (Suc k)
    with Cons.prems have "k < length xs" by simp
    from Cons.IH [OF this] Suc show ?thesis by simp
  qed
qed

lemma advance_count:
  assumes "advance i L = Some L'"
    and "length (filter (\<lambda>c. snd c = Locked) (calls L)) = (if run_lock L then 1 else 0)"
  shows "length (filter (\<lambda>c. snd c = Locked) (calls L')) = (if run_lock L' then 1 else 0)"
proof -
  from assms(1) have i: "i < length (calls L)"
    by (auto simp: advance_def split: if_splits)
  obtain sid ph where c: "calls L ! i = (sid, ph)" by (cases "calls L ! i")
  show ?thesis
  proof (cases ph)
    case Waiting
    with assms(1) i c have l: "\<not> run_lock L"
      and L': "L' = L\<lparr>run_lock := True, calls := (calls L)[i := (sid, Locked)]\<rparr>"
      by (auto simp: advance_def split: if_splits)
    from count_list_update [OF i, of "\<lambda>c. snd c = Locked" "(sid, Locked)"] c Waiting assms(2) l
    show ?thesis unfolding L' by simp
  next
    case Locked
    with assms(1) i c have
      L': "L' = L\<lparr>run_lock := False, calls := (calls L)[i := (sid, Released)]\<rparr>"
      by (auto simp: advance_def split: if_splits)
    from count_list_update [OF i, of "\<lambda>c. snd c = Locked" "(sid, Released)"] c Locked assms(2)
    show ?thesis unfolding L' by (simp split: if_splits)
  next
    case Released
    with assms(1) i c show ?thesis by (simp add: advance_def)
  qed
qed

lemma reachable_count:
  "reachable L \<Longrightarrow>
   length (filter (\<lambda>c. snd c = Locked) (calls L)) = (if run_lock L then 1 else 0)"
proof (induction rule: reachable.induct)
  case init
  show ?case by simp
next
  case (call L sid)
  then show ?case by (simp add: call_run_source_def)
next
  case (step L i L')
  from advance_count [OF step.hyps(2) step.IH] show ?case .
qed

text \<open>
  C5, as amended. \<open>run_source\<close> runs its scan and item loop under the one lock of the engine.
  So in every reachable state at most one call of \<open>run_source\<close>, for whatever source, is inside
  that block, exactly when the lock is held; and while the lock is held, a waiting call, of
  the same or of another source, cannot enter.
\<close>

theorem run_lock_exclusive:
  assumes "reachable L"
  shows "length (filter (\<lambda>c. snd c = Locked) (calls L)) \<le> 1 \<and>
         (run_lock L \<longleftrightarrow> length (filter (\<lambda>c. snd c = Locked) (calls L)) = 1) \<and>
         (run_lock L \<and> i < length (calls L) \<and> snd (calls L ! i) = Waiting \<longrightarrow> advance i L = None)"
proof -
  have "advance i L = None" if "run_lock L" "i < length (calls L)" "snd (calls L ! i) = Waiting"
    using that by (cases "calls L ! i") (simp add: advance_def)
  then show ?thesis
    using reachable_count [OF assms] by simp
qed

text \<open>Calls for two sources: the first has the lock, the second waits.\<close>

theorem run_lock_exclusive_witness:
  "reachable \<lparr>run_lock = True, calls = [(ascii ''a'', Locked), (ascii ''b'', Waiting)]\<rparr> \<and>
   length (filter (\<lambda>c. snd c = Locked) [(ascii ''a'', Locked), (ascii ''b'', Waiting)]) = 1 \<and>
   advance 1 \<lparr>run_lock = True, calls = [(ascii ''a'', Locked), (ascii ''b'', Waiting)]\<rparr> = None"
proof -
  let ?L0 = "\<lparr>run_lock = False, calls = []\<rparr>"
  let ?L2 = "call_run_source (ascii ''b'') (call_run_source (ascii ''a'') ?L0)"
  let ?L3 = "\<lparr>run_lock = True, calls = [(ascii ''a'', Locked), (ascii ''b'', Waiting)]\<rparr>"
  have r2: "reachable ?L2" by (intro reachable.call reachable.init)
  have a: "advance 0 ?L2 = Some ?L3"
    by (simp add: advance_def call_run_source_def)
  have r3: "reachable ?L3" using r2 a by (rule reachable.step)
  show ?thesis
    using run_lock_exclusive [OF r3, of 1] r3 by simp
qed

text \<open>
  A call for source \<open>a\<close> and a call for source \<open>b\<close>: once the call for \<open>a\<close> is inside the
  block, the call for \<open>b\<close> cannot proceed, although it is for a different source.
\<close>

theorem run_lock_serializes_sources:
  "advance 0 (call_run_source (ascii ''b'') (call_run_source (ascii ''a'')
      \<lparr>run_lock = False, calls = []\<rparr>)) =
     Some \<lparr>run_lock = True, calls = [(ascii ''a'', Locked), (ascii ''b'', Waiting)]\<rparr> \<and>
   advance 1 \<lparr>run_lock = True, calls = [(ascii ''a'', Locked), (ascii ''b'', Waiting)]\<rparr> = None \<and>
   ascii ''a'' \<noteq> ascii ''b''"
  by (simp add: advance_def call_run_source_def ascii_def)

end
